theory Spec2Isabelle
  imports Complex_Main "HOL-Library.Code_Target_Numeral"
begin

section \<open>JavaScript values used by the warscroll generator\<close>

text \<open>
  The program (\<^verbatim>\<open>src/app/warscroll.js\<close>) keeps each stat either as the empty string or
  as a Number, and formats it with \<^verbatim>\<open>Number\<close>, \<^verbatim>\<open>parseInt\<close> and \<^verbatim>\<open>String\<close>.

  A finite Number is modelled by the decimal value that \<^verbatim>\<open>Number::toString\<close> prints for it
  (ECMA-262, 6.1.6.1.20 chooses the shortest decimal \<open>s \<times> 10\<^sup>n\<^sup>-\<^sup>k\<close> denoting the Number):
  \<open>Fin m e\<close> stands for \<open>m / 10\<^sup>e\<close>. Integers are \<open>Fin m 0\<close>. Where the program makes a
  Number from text (\<^verbatim>\<open>parseInt\<close>, \<^verbatim>\<open>Number\<close>), the mathematical value of the text is
  rounded to the nearest double, ties to even, which gives Infinity from
  \<open>2\<^sup>1\<^sup>0\<^sup>2\<^sup>4 - 2\<^sup>9\<^sup>7\<^sup>0\<close> on (about \<open>1.8 \<times> 10\<^sup>3\<^sup>0\<^sup>8\<close>), and the result is the shortest
  decimal of that double (section \<open>Rounding to the nearest double\<close> below). Negative
  zero is not distinguished from zero (both print as \<^verbatim>\<open>0\<close> and compare equal).

  A string is a list of 8-bit characters, read as the UTF-16 code units below 256. The
  strings that the program passes to \<^verbatim>\<open>parseInt\<close> and \<^verbatim>\<open>Number\<close> are the value of a
  number input (which the browser keeps to the empty string or the syntax of a
  floating-point number: digits, sign, dot and exponent, of any length) and the text of a
  Number.
\<close>

datatype number = NaN | PosInf | NegInf | Fin int nat

datatype jsval = JUndefined | JNull | JStr string | JNum number

subsection \<open>Comparison, remainder and floor on Numbers\<close>

fun isNaN :: "number \<Rightarrow> bool" where
  "isNaN NaN = True"
| "isNaN _ = False"

text \<open>\<^verbatim>\<open>a < b\<close>: false as soon as one side is NaN.\<close>

definition num_lt :: "number \<Rightarrow> number \<Rightarrow> bool" where
  "num_lt a b =
     (case a of
        NaN \<Rightarrow> False
      | PosInf \<Rightarrow> False
      | NegInf \<Rightarrow> (case b of NaN \<Rightarrow> False | NegInf \<Rightarrow> False | _ \<Rightarrow> True)
      | Fin m e \<Rightarrow>
          (case b of
             NaN \<Rightarrow> False
           | PosInf \<Rightarrow> True
           | NegInf \<Rightarrow> False
           | Fin m' e' \<Rightarrow> m * 10 ^ e' < m' * 10 ^ e))"

text \<open>\<^verbatim>\<open>a === b\<close> on Numbers.\<close>

definition num_eq :: "number \<Rightarrow> number \<Rightarrow> bool" where
  "num_eq a b =
     (case a of
        NaN \<Rightarrow> False
      | PosInf \<Rightarrow> (case b of PosInf \<Rightarrow> True | _ \<Rightarrow> False)
      | NegInf \<Rightarrow> (case b of NegInf \<Rightarrow> True | _ \<Rightarrow> False)
      | Fin m e \<Rightarrow> (case b of Fin m' e' \<Rightarrow> m * 10 ^ e' = m' * 10 ^ e | _ \<Rightarrow> False))"

text \<open>
  \<^verbatim>\<open>n % 1\<close>: the remainder takes the sign of the dividend; it is NaN when \<open>n\<close> is not
  finite.
\<close>

definition trunc_div :: "int \<Rightarrow> int \<Rightarrow> int" where
  "trunc_div a b = (if a < 0 then - ((- a) div b) else a div b)"

fun rem1 :: "number \<Rightarrow> number" where
  "rem1 (Fin m e) = Fin (m - trunc_div m (10 ^ e) * 10 ^ e) e"
| "rem1 _ = NaN"

fun Math_floor :: "number \<Rightarrow> number" where
  "Math_floor (Fin m e) = Fin (m div 10 ^ e) 0"
| "Math_floor x = x"

subsection \<open>Decimal digits\<close>

definition dquote :: char where
  "dquote = CHR 0x22"

definition is_digit :: "char \<Rightarrow> bool" where
  "is_digit c = (c \<in> set ''0123456789'')"

definition digit_val :: "char \<Rightarrow> nat" where
  "digit_val c = of_char c - 48"

definition digit_char :: "nat \<Rightarrow> char" where
  "digit_char d = ''0123456789'' ! d"

fun digits10 :: "nat \<Rightarrow> string" where
  "digits10 n =
     (if n < 10 then [digit_char n] else digits10 (n div 10) @ [digit_char (n mod 10)])"

declare digits10.simps [simp del]

definition nat_of_digits :: "string \<Rightarrow> nat" where
  "nat_of_digits cs = foldl (\<lambda>a c. 10 * a + digit_val c) 0 cs"

definition strip_trailing_zeros :: "string \<Rightarrow> string" where
  "strip_trailing_zeros ds = rev (dropWhile (\<lambda>c. c = CHR ''0'') (rev ds))"

subsection \<open>Rounding to the nearest double\<close>

text \<open>
  A non-negative rational is a fraction \<open>(a, b)\<close>, standing for \<open>a / b\<close> with \<open>b > 0\<close>; a
  positive double is a pair \<open>(q, e)\<close>, standing for \<open>q \<times> 2\<^sup>e\<close> with \<open>q < 2\<^sup>5\<^sup>3\<close> and
  \<open>- 1074 \<le> e\<close>.
\<close>

type_synonym fraction = "nat \<times> nat"

definition times_pow2 :: "fraction \<Rightarrow> int \<Rightarrow> fraction" where
  "times_pow2 x e =
     (if 0 \<le> e then (fst x * 2 ^ nat e, snd x) else (fst x, snd x * 2 ^ nat (- e)))"

definition times_pow10 :: "fraction \<Rightarrow> int \<Rightarrow> fraction" where
  "times_pow10 x e =
     (if 0 \<le> e then (fst x * 10 ^ nat e, snd x) else (fst x, snd x * 10 ^ nat (- e)))"

text \<open>The number of binary digits of \<open>n\<close>.\<close>

fun bitlen :: "nat \<Rightarrow> nat" where
  "bitlen n = (if n = 0 then 0 else 1 + bitlen (n div 2))"

declare bitlen.simps [simp del]

text \<open>
  The exponent of the double nearest to \<open>x\<close>: the one that puts \<open>x / 2\<^sup>e\<close> in
  \<open>[2\<^sup>5\<^sup>2, 2\<^sup>5\<^sup>3)\<close>, and \<open>- 1074\<close> for the subnormal doubles below that.
\<close>

definition binary_exponent :: "fraction \<Rightarrow> int" where
  "binary_exponent x =
     (let e0 = int (bitlen (fst x)) - int (bitlen (snd x)) - 53;
          t = times_pow2 x (- e0);
          e1 = (if 2 ^ 53 * snd t \<le> fst t then e0 + 1 else e0)
      in max e1 (- 1074))"

text \<open>The integer nearest to the fraction \<open>t\<close>, the even one of two that are equally near.\<close>

definition round_half_even :: "fraction \<Rightarrow> nat" where
  "round_half_even t =
     (let q = fst t div snd t;
          r = fst t mod snd t
      in if snd t < 2 * r \<or> (2 * r = snd t \<and> odd q) then q + 1 else q)"

text \<open>
  The double nearest to \<open>x\<close>, ties to even (IEEE 754 roundTiesToEven, which ECMA-262
  6.1.6.1 prescribes for the Number value of a mathematical value), before the test for
  overflow.
\<close>

definition nearest_double :: "fraction \<Rightarrow> nat \<times> int" where
  "nearest_double x =
     (let e = binary_exponent x;
          q = round_half_even (times_pow2 x (- e))
      in if q = 2 ^ 53 then (2 ^ 52, e + 1) else (q, e))"

definition double_fraction :: "nat \<times> int \<Rightarrow> fraction" where
  "double_fraction dbl = times_pow2 (fst dbl, 1) (snd dbl)"

text \<open>
  The position \<open>n\<close> of the decimal point of a positive fraction \<open>x\<close>:
  \<open>10\<^sup>n\<^sup>-\<^sup>1 \<le> x < 10\<^sup>n\<close>. For \<open>0 < a < b\<close>, \<open>lead a b\<close> is the least \<open>j\<close> with
  \<open>b \<le> a \<times> 10\<^sup>j\<close>.
\<close>

function lead :: "nat \<Rightarrow> nat \<Rightarrow> nat" where
  "lead a b = (if a = 0 \<or> b \<le> a then 0 else 1 + lead (10 * a) b)"
  by pat_completeness auto
termination
  by (relation "measure (\<lambda>(a, b). b - a)") auto

declare lead.simps [simp del]

definition decimal_position :: "fraction \<Rightarrow> int" where
  "decimal_position x =
     (if snd x \<le> fst x then int (length (digits10 (fst x div snd x)))
      else 1 - int (lead (fst x) (snd x)))"

text \<open>
  \<^verbatim>\<open>Number::toString\<close> (ECMA-262 6.1.6.1.20, step 5) prints a double \<open>x\<close> with the least
  number \<open>k\<close> of digits \<open>s\<close> such that \<open>s \<times> 10\<^sup>n\<^sup>-\<^sup>k\<close> is \<open>x\<close> as a Number, that is, rounds
  to \<open>x\<close>; of several such \<open>s\<close> the one nearest to \<open>x\<close>. With \<open>k\<close> digits the candidates
  are the two integers around \<open>x / 10\<^sup>n\<^sup>-\<^sup>k\<close>. Seventeen digits always suffice, so that
  the search stops at \<open>kmax\<close> with the nearer candidate.
\<close>

definition roundtrips :: "nat \<times> int \<Rightarrow> nat \<Rightarrow> int \<Rightarrow> bool" where
  "roundtrips dbl s e = (nearest_double (times_pow10 (s, 1) e) = dbl)"

definition choose_digits :: "nat \<times> int \<Rightarrow> int \<Rightarrow> bool \<Rightarrow> nat \<Rightarrow> bool \<Rightarrow> nat option" where
  "choose_digits dbl e final lo lo_closer =
     (if final \<or> (roundtrips dbl lo e \<and> roundtrips dbl (lo + 1) e)
      then Some (if lo_closer then lo else lo + 1)
      else if roundtrips dbl lo e then Some lo
      else if roundtrips dbl (lo + 1) e then Some (lo + 1)
      else None)"

definition lower_digits :: "fraction \<Rightarrow> nat" where
  "lower_digits t = fst t div snd t"

definition lower_closer :: "fraction \<Rightarrow> bool" where
  "lower_closer t =
     (2 * (fst t mod snd t) < snd t \<or>
      (2 * (fst t mod snd t) = snd t \<and> even (fst t div snd t)))"

definition digits_at :: "nat \<times> int \<Rightarrow> fraction \<Rightarrow> int \<Rightarrow> nat \<Rightarrow> bool \<Rightarrow> nat option" where
  "digits_at dbl x n k final =
     choose_digits dbl (n - int k) final
       (lower_digits (times_pow10 x (int k - n)))
       (lower_closer (times_pow10 x (int k - n)))"

function shortest_digits ::
  "nat \<times> int \<Rightarrow> fraction \<Rightarrow> int \<Rightarrow> nat \<Rightarrow> nat \<Rightarrow> nat \<times> nat" where
  "shortest_digits dbl x n kmax k =
     (case digits_at dbl x n k (kmax \<le> k) of
        Some s \<Rightarrow> (s, k)
      | None \<Rightarrow> shortest_digits dbl x n kmax (k + 1))"
  by pat_completeness auto
termination
proof (relation "measure (\<lambda>(dbl, x, n, kmax, k). kmax - k)")
  show "wf (measure (\<lambda>(dbl, x, n, kmax, k). kmax - k))" by simp
next
  fix dbl :: "nat \<times> int" and x :: fraction and n :: int and kmax k :: nat
  assume "digits_at dbl x n k (kmax \<le> k) = None"
  then have "\<not> kmax \<le> k" by (auto simp: digits_at_def choose_digits_def)
  then show "((dbl, x, n, kmax, k + 1), (dbl, x, n, kmax, k))
      \<in> measure (\<lambda>(dbl, x, n, kmax, k). kmax - k)"
    by simp
qed

declare shortest_digits.simps [simp del]

text \<open>
  The Number of a natural number \<open>n\<close>: \<open>n\<close> itself below \<open>2\<^sup>5\<^sup>3\<close>, where every integer is a
  double; Infinity from \<open>2\<^sup>1\<^sup>0\<^sup>2\<^sup>4 - 2\<^sup>9\<^sup>7\<^sup>0\<close> on, the midpoint between the largest double and
  \<open>2\<^sup>1\<^sup>0\<^sup>2\<^sup>4\<close>; in between the nearest double \<open>d\<close>, an integer of \<open>len\<close> digits, written
  with its shortest digits \<open>s\<close> followed by \<open>len - k\<close> zeros.
\<close>

definition whole_digits :: "nat \<times> int \<Rightarrow> nat \<times> nat" where
  "whole_digits dbl =
     shortest_digits dbl (double_fraction dbl) (decimal_position (double_fraction dbl))
       (min 17 (nat (decimal_position (double_fraction dbl)))) 1"

definition whole_number :: "nat \<times> int \<Rightarrow> number" where
  "whole_number dbl =
     Fin (int (fst (whole_digits dbl) *
               10 ^ (nat (decimal_position (double_fraction dbl)) - snd (whole_digits dbl)))) 0"

definition number_of_nat :: "nat \<Rightarrow> number" where
  "number_of_nat n =
     (if n < 2 ^ 53 then Fin (int n) 0
      else if 2 ^ 1024 - 2 ^ 970 \<le> n then PosInf
      else whole_number (nearest_double (n, 1)))"

text \<open>
  The Number of a non-negative fraction: zero when it rounds to zero, Infinity from
  \<open>2\<^sup>1\<^sup>0\<^sup>2\<^sup>4 - 2\<^sup>9\<^sup>7\<^sup>0\<close> on, and otherwise the shortest digits \<open>s\<close> of the nearest double
  with the decimal point at \<open>n\<close>, which is the decimal \<open>s \<times> 10\<^sup>n\<^sup>-\<^sup>k\<close>.
\<close>

definition decimal_number :: "nat \<times> nat \<Rightarrow> int \<Rightarrow> number" where
  "decimal_number sk n =
     (if int (snd sk) \<le> n then Fin (int (fst sk * 10 ^ nat (n - int (snd sk)))) 0
      else Fin (int (fst sk)) (nat (int (snd sk) - n)))"

definition number_of_double :: "nat \<times> int \<Rightarrow> number" where
  "number_of_double dbl =
     (if fst dbl = 0 then Fin 0 0
      else decimal_number
             (shortest_digits dbl (double_fraction dbl) (decimal_position (double_fraction dbl)) 17 1)
             (decimal_position (double_fraction dbl)))"

definition number_of_fraction :: "fraction \<Rightarrow> number" where
  "number_of_fraction x =
     (if fst x = 0 then Fin 0 0
      else if (2 ^ 1024 - 2 ^ 970) * snd x \<le> fst x then PosInf
      else number_of_double (nearest_double x))"

subsection \<open>\<^verbatim>\<open>String(n)\<close>\<close>

text \<open>
  \<^verbatim>\<open>Number::toString\<close> for a positive finite Number with significant digits \<open>sd\<close>
  (\<open>k = length sd\<close>) and decimal point position \<open>n\<close> (the value is \<open>0.sd \<times> 10\<^sup>n\<close>):
  plain digits when \<open>k \<le> n \<le> 21\<close>, a decimal point inside when \<open>0 < n \<le> 21\<close>,
  leading \<^verbatim>\<open>0.00\<close> when \<open>-6 < n \<le> 0\<close>, exponent notation otherwise.
\<close>

definition exponent_part :: "int \<Rightarrow> string" where
  "exponent_part n =
     ''e'' @ (if n - 1 < 0 then ''-'' else ''+'') @ digits10 (nat \<bar>n - 1\<bar>)"

definition to_string_digits :: "string \<Rightarrow> int \<Rightarrow> string" where
  "to_string_digits sd n =
     (let k = int (length sd) in
      if k \<le> n \<and> n \<le> 21 then sd @ replicate (nat (n - k)) (CHR ''0'')
      else if 0 < n \<and> n \<le> 21 then take (nat n) sd @ ''.'' @ drop (nat n) sd
      else if - 6 < n \<and> n \<le> 0 then ''0.'' @ replicate (nat (- n)) (CHR ''0'') @ sd
      else if k = 1 then sd @ exponent_part n
      else take 1 sd @ ''.'' @ drop 1 sd @ exponent_part n)"

fun num_to_string :: "number \<Rightarrow> string" where
  "num_to_string NaN = ''NaN''"
| "num_to_string PosInf = ''Infinity''"
| "num_to_string NegInf = ''-Infinity''"
| "num_to_string (Fin m e) =
     (if m = 0 then ''0''
      else
        (let ds = digits10 (nat \<bar>m\<bar>);
             body = to_string_digits (strip_trailing_zeros ds) (int (length ds) - int e)
         in if m < 0 then ''-'' @ body else body))"

text \<open>\<^verbatim>\<open>ToString\<close> of a value, as \<^verbatim>\<open>parseInt\<close> applies it to its argument.\<close>

fun ToString :: "jsval \<Rightarrow> string" where
  "ToString JUndefined = ''undefined''"
| "ToString JNull = ''null''"
| "ToString (JStr s) = s"
| "ToString (JNum n) = num_to_string n"

subsection \<open>\<^verbatim>\<open>parseInt(x, 10)\<close>\<close>

text \<open>
  The code units that \<^verbatim>\<open>parseInt\<close> and \<^verbatim>\<open>Number\<close> strip (ECMA-262 \<^verbatim>\<open>WhiteSpace\<close> and
  \<^verbatim>\<open>LineTerminator\<close>): TAB, LF, VT, FF, CR, SP, NBSP, U+1680, U+2000 to U+200A, U+2028,
  U+2029, U+202F, U+205F, U+3000 and U+FEFF. Of these the first seven are below 256.
\<close>

definition white_space_code_units :: "nat list" where
  "white_space_code_units =
     [0x09, 0x0A, 0x0B, 0x0C, 0x0D, 0x20, 0xA0, 0x1680,
      0x2000, 0x2001, 0x2002, 0x2003, 0x2004, 0x2005, 0x2006, 0x2007, 0x2008, 0x2009, 0x200A,
      0x2028, 0x2029, 0x202F, 0x205F, 0x3000, 0xFEFF]"

definition is_ws :: "char \<Rightarrow> bool" where
  "is_ws c = (of_char c \<in> set white_space_code_units)"

fun negate :: "number \<Rightarrow> number" where
  "negate NaN = NaN"
| "negate PosInf = NegInf"
| "negate NegInf = PosInf"
| "negate (Fin m e) = Fin (- m) e"

text \<open>
  ECMA-262 19.2.5 with radix 10: skip leading white space, read an optional sign, take
  the longest prefix of decimal digits; NaN when that prefix is empty, and otherwise the
  Number of the integer that the digits denote, with the sign. (From the 21st significant
  digit on an implementation may read the digits as zeros; here every digit counts.)
\<close>

definition parseInt_string :: "string \<Rightarrow> number" where
  "parseInt_string inputString =
     (let S = dropWhile is_ws inputString;
          neg = (case S of [] \<Rightarrow> False | c # _ \<Rightarrow> c = CHR ''-'');
          S' = (case S of [] \<Rightarrow> [] | c # cs \<Rightarrow> if c = CHR ''+'' \<or> c = CHR ''-'' then cs else S);
          Z = takeWhile is_digit S'
      in if Z = [] then NaN
         else if neg then negate (number_of_nat (nat_of_digits Z))
         else number_of_nat (nat_of_digits Z))"

definition parseInt :: "jsval \<Rightarrow> number" where
  "parseInt x = parseInt_string (ToString x)"

subsection \<open>\<^verbatim>\<open>Number(x)\<close>\<close>

definition trim_ws :: "string \<Rightarrow> string" where
  "trim_ws s = rev (dropWhile is_ws (rev (dropWhile is_ws s)))"

definition is_radix_digit :: "nat \<Rightarrow> char \<Rightarrow> bool" where
  "is_radix_digit r c =
     (let v = of_char c :: nat in
      (48 \<le> v \<and> v < 48 + min r 10) \<or> (97 \<le> v \<and> v + 10 < 97 + r) \<or> (65 \<le> v \<and> v + 10 < 65 + r))"

definition radix_digit_val :: "char \<Rightarrow> nat" where
  "radix_digit_val c =
     (let v = of_char c :: nat in
      if v \<ge> 97 then v - 87 else if v \<ge> 65 then v - 55 else v - 48)"

definition radix_literal :: "nat \<Rightarrow> string \<Rightarrow> number" where
  "radix_literal r ds =
     (if ds \<noteq> [] \<and> list_all (is_radix_digit r) ds
      then number_of_nat (foldl (\<lambda>a c. r * a + radix_digit_val c) 0 ds)
      else NaN)"

text \<open>
  An unsigned decimal literal: digits, an optional fraction, an optional exponent, with
  at least one digit before the exponent and nothing left over. Its Number is that of
  the value \<open>m \<times> 10\<^sup>x\<close>, for the digits \<open>m\<close> of the integer and fraction parts and the
  exponent \<open>x\<close> less the length of the fraction part. (Here too every digit counts.)
\<close>

definition exponent_of :: "string \<Rightarrow> int option" where
  "exponent_of r =
     (case r of
        [] \<Rightarrow> Some 0
      | c # cs \<Rightarrow>
          if c = CHR ''e'' \<or> c = CHR ''E'' then
            (let neg = (case cs of [] \<Rightarrow> False | d # _ \<Rightarrow> d = CHR ''-'');
                 ds = (case cs of [] \<Rightarrow> []
                       | d # ds' \<Rightarrow> if d = CHR ''+'' \<or> d = CHR ''-'' then ds' else cs)
             in if ds \<noteq> [] \<and> list_all is_digit ds
                then Some ((if neg then - 1 else 1) * int (nat_of_digits ds))
                else None)
          else None)"

definition decimal_literal :: "string \<Rightarrow> number" where
  "decimal_literal t =
     (let ip = takeWhile is_digit t;
          r1 = dropWhile is_digit t;
          has_dot = (case r1 of [] \<Rightarrow> False | c # _ \<Rightarrow> c = CHR ''.'');
          fp = (if has_dot then takeWhile is_digit (tl r1) else []);
          r2 = (if has_dot then dropWhile is_digit (tl r1) else r1)
      in if ip = [] \<and> fp = [] then NaN
         else (case exponent_of r2 of
                 None \<Rightarrow> NaN
               | Some x \<Rightarrow>
                   number_of_fraction
                     (times_pow10 (nat_of_digits (ip @ fp), 1) (x - int (length fp)))))"

text \<open>
  \<^verbatim>\<open>StringToNumber\<close> (ECMA-262 7.1.4.1.1): the trimmed string is empty (zero), a
  \<^verbatim>\<open>0x\<close>, \<^verbatim>\<open>0o\<close> or \<^verbatim>\<open>0b\<close> integer literal, or an optionally signed \<^verbatim>\<open>Infinity\<close>
  or decimal literal; anything else is NaN.
\<close>

definition unsigned_literal :: "string \<Rightarrow> number" where
  "unsigned_literal t = (if t = ''Infinity'' then PosInf else decimal_literal t)"

definition StringToNumber :: "string \<Rightarrow> number" where
  "StringToNumber s =
     (let t = trim_ws s in
      if t = [] then Fin 0 0
      else if take 2 t = ''0x'' \<or> take 2 t = ''0X'' then radix_literal 16 (drop 2 t)
      else if take 2 t = ''0o'' \<or> take 2 t = ''0O'' then radix_literal 8 (drop 2 t)
      else if take 2 t = ''0b'' \<or> take 2 t = ''0B'' then radix_literal 2 (drop 2 t)
      else if take 1 t = ''-'' then negate (unsigned_literal (drop 1 t))
      else if take 1 t = ''+'' then unsigned_literal (drop 1 t)
      else unsigned_literal t)"

fun Number :: "jsval \<Rightarrow> number" where
  "Number JUndefined = NaN"
| "Number JNull = Fin 0 0"
| "Number (JStr s) = StringToNumber s"
| "Number (JNum n) = n"

section \<open>Stat formatting\<close>

text \<open>
  \<^verbatim>\<open>String(n).replace(/\.0+$/, "")\<close>: the leftmost position from which the rest of the
  string is a dot followed by one or more zeros is cut off.
\<close>

fun replace_dot_zeros :: "string \<Rightarrow> string" where
  "replace_dot_zeros [] = []"
| "replace_dot_zeros (c # cs) =
     (if c = CHR ''.'' \<and> cs \<noteq> [] \<and> list_all (\<lambda>x. x = CHR ''0'') cs then []
      else c # replace_dot_zeros cs)"

text \<open>\<^verbatim>\<open>formatStatForDisplay(key, rawValue)\<close>, lines 85 to 104.\<close>

definition formatStatForDisplay :: "string \<Rightarrow> jsval \<Rightarrow> string" where
  "formatStatForDisplay key rawValue =
     (if rawValue = JUndefined \<or> rawValue = JNull \<or> rawValue = JStr '''' then ''''
      else if key = ''move'' then
        (let n = Number rawValue in
         if isNaN n \<or> num_lt n (Fin 0 0) then ''''
         else
           (let s = (if num_eq (rem1 n) (Fin 0 0) then num_to_string n
                     else replace_dot_zeros (num_to_string n))
            in s @ [dquote]))
      else if key = ''save'' then
        (let n = parseInt rawValue in
         if isNaN n \<or> num_lt n (Fin 0 0) then ''''
         else num_to_string n @ ''+'')
      else
        (let n = parseInt rawValue in
         if isNaN n \<or> num_lt n (Fin 0 0) then ''''
         else num_to_string n))"

section \<open>The session's stats and the input handler\<close>

text \<open>
  \<^verbatim>\<open>const stats = { move: "", health: "", save: "", control: "" }\<close> (line 384); a
  property that was never set reads as \<^verbatim>\<open>undefined\<close>.
\<close>

type_synonym stats = "string \<Rightarrow> jsval"

definition initial_stats :: stats where
  "initial_stats =
     (\<lambda>_. JUndefined)(''move'' := JStr '''', ''health'' := JStr '''',
                       ''save'' := JStr '''', ''control'' := JStr '''')"

text \<open>
  The \<^verbatim>\<open>oninput\<close> handler of \<^verbatim>\<open>makeStatInput(key, _)\<close>, lines 446 to 472, as the new
  stats for the input's current value \<open>v\<close> (the re-rendering of the overlay that follows
  does not change the stats).
\<close>

definition oninput :: "string \<Rightarrow> string \<Rightarrow> stats \<Rightarrow> stats" where
  "oninput key v stats =
     (if v = '''' then stats(key := JStr '''')
      else if key = ''save'' then
        (let n = parseInt (JStr v) in
         if isNaN n then stats(key := JStr '''')
         else
           (let n1 = (if num_lt n (Fin 1 0) then Fin 1 0 else n);
                n2 = (if num_lt (Fin 6 0) n1 then Fin 6 0 else n1)
            in stats(key := JNum (Math_floor n2))))
      else
        (let n = parseInt (JStr v) in
         if isNaN n then stats(key := JStr '''')
         else
           (let n1 = (if num_lt n (Fin 0 0) then Fin 0 0 else n)
            in stats(key := JNum (Math_floor n1)))))"

text \<open>The four inputs created by \<^verbatim>\<open>bootstrap\<close> (lines 507 to 510).\<close>

definition stat_keys :: "string list" where
  "stat_keys = [''move'', ''health'', ''save'', ''control'']"

text \<open>
  A session is a sequence of input events \<open>(key, v)\<close>, each on one of the four inputs,
  handled one after the other from the initial stats.
\<close>

fun run_inputs :: "(string \<times> string) list \<Rightarrow> stats \<Rightarrow> stats" where
  "run_inputs [] stats = stats"
| "run_inputs ((key, v) # evs) stats = run_inputs evs (oninput key v stats)"

text \<open>
  What the stats hold after any session: the empty string or a non-negative whole Number,
  and for \<^verbatim>\<open>save\<close> a Number between 1 and 6.
\<close>

fun nonneg_integer :: "number \<Rightarrow> bool" where
  "nonneg_integer (Fin m e) = (0 \<le> m \<and> m mod 10 ^ e = 0)"
| "nonneg_integer _ = False"

fun stat_ok :: "jsval \<Rightarrow> bool" where
  "stat_ok (JStr s) = (s = '''')"
| "stat_ok (JNum n) = nonneg_integer n"
| "stat_ok _ = False"

fun save_ok :: "jsval \<Rightarrow> bool" where
  "save_ok (JStr s) = (s = '''')"
| "save_ok (JNum n) = (nonneg_integer n \<and> \<not> num_lt n (Fin 1 0) \<and> \<not> num_lt (Fin 6 0) n)"
| "save_ok _ = False"

definition stats_inv :: "stats \<Rightarrow> bool" where
  "stats_inv stats =
     (stat_ok (stats ''move'') \<and> stat_ok (stats ''health'') \<and>
      save_ok (stats ''save'') \<and> stat_ok (stats ''control''))"

text \<open>The same, with Infinity allowed for \<^verbatim>\<open>move\<close>, \<^verbatim>\<open>health\<close> and \<^verbatim>\<open>control\<close>.\<close>

fun stat_ok_inf :: "jsval \<Rightarrow> bool" where
  "stat_ok_inf (JStr s) = (s = '''')"
| "stat_ok_inf (JNum n) = (nonneg_integer n \<or> n = PosInf)"
| "stat_ok_inf _ = False"

definition stats_inv_inf :: "stats \<Rightarrow> bool" where
  "stats_inv_inf stats =
     (stat_ok_inf (stats ''move'') \<and> stat_ok_inf (stats ''health'') \<and>
      save_ok (stats ''save'') \<and> stat_ok_inf (stats ''control''))"

section \<open>Badge geometry\<close>

text \<open>
  Coordinates, sizes and angles are Numbers that the program multiplies, rounds and feeds
  to \<^verbatim>\<open>Math.cos\<close>; they are modelled as real numbers, with exact arithmetic in place of
  floating point.
\<close>

text \<open>\<^verbatim>\<open>Math.round\<close> rounds to the nearest integer, halves upwards.\<close>

definition Math_round :: "real \<Rightarrow> real" where
  "Math_round x = of_int \<lfloor>x + 1 / 2\<rfloor>"

text \<open>
  \<^verbatim>\<open>x % y\<close>: \<open>x\<close> minus \<open>y\<close> times the quotient rounded towards zero (the divisor is the
  constant 360 at both places where the program uses it).
\<close>

definition trunc_real :: "real \<Rightarrow> int" where
  "trunc_real q = (if q < 0 then - \<lfloor>- q\<rfloor> else \<lfloor>q\<rfloor>)"

definition fmod :: "real \<Rightarrow> real \<Rightarrow> real" where
  "fmod x y = x - y * of_int (trunc_real (x / y))"

record point =
  px :: real
  py :: real

text \<open>\<^verbatim>\<open>polarToCartesian(cx, cy, radius, angleDeg)\<close>, lines 227 to 232.\<close>

definition polarToCartesian :: "real \<Rightarrow> real \<Rightarrow> real \<Rightarrow> real \<Rightarrow> point" where
  "polarToCartesian cx cy radius angleDeg =
     (let rad = (angleDeg * pi) / 180
      in \<lparr>px = cx + radius * cos rad, py = cy + radius * sin rad\<rparr>)"

text \<open>
  \<^verbatim>\<open>arcPathD(cx, cy, radius, startAngle, endAngle)\<close>, lines 236 to 245. The source returns
  the text \<^verbatim>\<open>M sx sy A r r 0 largeArcFlag sweepFlag ex ey\<close> with the end points printed
  by \<^verbatim>\<open>toFixed(2)\<close>; the record holds the pieces of that text.
\<close>

record arc_path =
  arc_start :: point
  arc_radius :: real
  largeArcFlag :: nat
  sweepFlag :: nat
  arc_end :: point

definition arc_delta :: "real \<Rightarrow> real \<Rightarrow> real" where
  "arc_delta startAngle endAngle = fmod (fmod (endAngle - startAngle) 360 + 360) 360"

definition arcPathD :: "real \<Rightarrow> real \<Rightarrow> real \<Rightarrow> real \<Rightarrow> real \<Rightarrow> arc_path" where
  "arcPathD cx cy radius startAngle endAngle =
     (let start = polarToCartesian cx cy radius startAngle;
          end' = polarToCartesian cx cy radius endAngle;
          delta = arc_delta startAngle endAngle
      in \<lparr>arc_start = start, arc_radius = radius,
          largeArcFlag = (if delta > 180 then 1 else 0),
          sweepFlag = (if delta > 0 \<and> delta \<le> 180 then 1 else 0),
          arc_end = end'\<rparr>)"

subsection \<open>The badge layout of the two renderers\<close>

record layout =
  cx :: real
  cy :: real
  circleRadius :: real
  numberRadius :: real

record preview_layout = layout +
  textRadius :: real

text \<open>Lines 269 to 277 of \<^verbatim>\<open>renderQuarterLabels\<close>.\<close>

definition previewLayout :: "real \<Rightarrow> real \<Rightarrow> preview_layout" where
  "previewLayout imgWidth imgHeight =
     (let cx' = Math_round (imgWidth * 0.157);
          cy' = Math_round (imgHeight * 0.105);
          circleRadius' = Math_round (min imgWidth imgHeight * 0.12);
          textRadius' = max 12 (circleRadius' * 0.70);
          numberRadius' = max 8 (circleRadius' * 0.40)
      in \<lparr>cx = cx', cy = cy', circleRadius = circleRadius', numberRadius = numberRadius',
          textRadius = textRadius'\<rparr>)"

text \<open>Lines 148 to 151 of \<^verbatim>\<open>drawWarscrollCanvas\<close>.\<close>

definition exportLayout :: "real \<Rightarrow> real \<Rightarrow> layout" where
  "exportLayout width height =
     (let cx' = Math_round (width * 0.157);
          cy' = Math_round (height * 0.105);
          circleRadius' = Math_round (min width height * 0.12);
          numberRadius' = max 8 (circleRadius' * 0.45)
      in \<lparr>cx = cx', cy = cy', circleRadius = circleRadius', numberRadius = numberRadius'\<rparr>)"

section \<open>Exceptions\<close>

text \<open>
  A call completes normally (\<open>Inr\<close>) or throws (\<open>Inl\<close>). The program itself has no
  \<^verbatim>\<open>throw\<close> in its renderers; the exceptions are those of the platform:
  \<^verbatim>\<open>ctx.drawImage\<close> on an image in the broken state, and a method call on a value that
  has no such method.
\<close>

datatype js_error = InvalidStateError | TypeError

section \<open>The canvas of the export\<close>

text \<open>
  An image element that the load has delivered: its natural size, and whether
  \<^verbatim>\<open>ctx.drawImage\<close> throws for it.
\<close>

record image =
  naturalWidth :: real
  naturalHeight :: real
  draw_throws :: bool

text \<open>
  The 2D context is the sequence of the calls and property assignments made on it, in
  order. A font is its size in pixels and its family.
\<close>

datatype canvas_op =
    Scale real real
  | DrawImage image real real real real
  | FillRect real real real real
  | StrokeRect real real real real
  | FillText string real real
  | FillStyle string
  | StrokeStyle string
  | LineWidth real
  | Font real string
  | TextAlign string
  | TextBaseline string
  | ShadowColor string
  | ShadowBlur real

record canvas =
  canvas_width :: real
  canvas_height :: real
  style_width :: real
  style_height :: real
  ctx :: "canvas_op list"

definition drawImage ::
  "image \<Rightarrow> real \<Rightarrow> real \<Rightarrow> real \<Rightarrow> real \<Rightarrow> canvas_op list \<Rightarrow> js_error + canvas_op list" where
  "drawImage img x y w h c = (if draw_throws img then Inl InvalidStateError else Inr (c @ [DrawImage img x y w h]))"

text \<open>The font in force: the last one assigned (a context starts with 10px sans-serif).\<close>

definition current_font :: "canvas_op list \<Rightarrow> real \<times> string" where
  "current_font ops =
     foldl (\<lambda>f op. case op of Font px_size family \<Rightarrow> (px_size, family) | _ \<Rightarrow> f)
       (10, ''sans-serif'') ops"

text \<open>\<^verbatim>\<open>text.split(" ")\<close>: the pieces between single spaces, at least one piece.\<close>

fun split_space :: "string \<Rightarrow> string list" where
  "split_space [] = [[]]"
| "split_space (c # cs) =
     (if c = CHR '' '' then [] # split_space cs
      else (case split_space cs of [] \<Rightarrow> [[c]] | w # ws \<Rightarrow> (c # w) # ws))"

text \<open>The words of some lines of text, in order: the non-empty pieces of each line.\<close>

definition words_of :: "string list \<Rightarrow> string list" where
  "words_of ls = filter (\<lambda>w. w \<noteq> []) (concat (map split_space ls))"

text \<open>
  \<^verbatim>\<open>wrapText(ctx, text, x, y, maxWidth, lineHeight)\<close>, lines 208 to 224. The width that
  \<^verbatim>\<open>ctx.measureText\<close> reports depends on the renderer; \<open>measureText\<close> gives it for a
  font and a text. The loop carries \<open>first\<close> (\<^verbatim>\<open>n === 0\<close>), the current line and \<open>y\<close>.
\<close>

fun wrap_loop ::
  "(string \<Rightarrow> real) \<Rightarrow> real \<Rightarrow> real \<Rightarrow> real \<Rightarrow> string list \<Rightarrow> bool \<Rightarrow> string \<Rightarrow> real \<Rightarrow>
   canvas_op list \<Rightarrow> canvas_op list \<times> string \<times> real" where
  "wrap_loop width_of x maxWidth lineHeight [] first line y c = (c, line, y)"
| "wrap_loop width_of x maxWidth lineHeight (w # ws) first line y c =
     (let testLine = line @ (if line \<noteq> [] then '' '' else []) @ w;
          testWidth = width_of testLine
      in if testWidth > maxWidth \<and> \<not> first
         then wrap_loop width_of x maxWidth lineHeight ws False w (y + lineHeight)
                (c @ [FillText line x y])
         else wrap_loop width_of x maxWidth lineHeight ws False testLine y c)"

definition wrapText ::
  "(real \<times> string \<Rightarrow> string \<Rightarrow> real) \<Rightarrow> canvas_op list \<Rightarrow> string \<Rightarrow> real \<Rightarrow> real \<Rightarrow> real \<Rightarrow> real \<Rightarrow>
   canvas_op list" where
  "wrapText measureText c text x y maxWidth lineHeight =
     (let words = split_space text in
      case wrap_loop (measureText (current_font c)) x maxWidth lineHeight words True [] y c of
        (c', line, y') \<Rightarrow> c' @ [FillText line x y'])"

text \<open>\<^verbatim>\<open>drawStatAtAngle(angleDeg, key)\<close>, lines 163 to 171, on the context so far.\<close>

definition drawStatAtAngle ::
  "real \<Rightarrow> real \<Rightarrow> real \<Rightarrow> stats \<Rightarrow> real \<Rightarrow> string \<Rightarrow> canvas_op list \<Rightarrow> canvas_op list" where
  "drawStatAtAngle cx' cy' numberRadius' stats angleDeg key c =
     (let raw = stats key;
          formatted = formatStatForDisplay key raw
      in if formatted = [] then c
         else
           (let rad = (angleDeg * pi) / 180;
                nx = cx' + numberRadius' * cos rad;
                ny = cy' + numberRadius' * sin rad
            in c @ [FillText formatted nx ny]))"

text \<open>\<^verbatim>\<open>formatStatForDisplay(key, stats[key]) || "-"\<close> of the body lines.\<close>

definition or_dash :: "string \<Rightarrow> string" where
  "or_dash s = (if s = [] then ''-'' else s)"

text \<open>
  \<^verbatim>\<open>drawWarscrollCanvas(title, width, height, bgImg, stats)\<close>, lines 109 to 205, with the
  window's \<^verbatim>\<open>devicePixelRatio\<close> and the renderer's text measure as further arguments.
  The background (lines 119 to 130), the border (132 to 135), the title (137 to 144), the
  stat numbers (146 to 177) and the body text (179 to 202) are a definition each, from the
  context so far to the context after; \<open>draw_content\<close> is everything after the background.
\<close>

definition draw_background :: "image option \<Rightarrow> real \<Rightarrow> real \<Rightarrow> canvas_op list \<Rightarrow> canvas_op list" where
  "draw_background bgImg width height c =
     (case bgImg of
        Some img \<Rightarrow>
          (case drawImage img 0 0 width height c of
             Inr c' \<Rightarrow> c'
           | Inl e \<Rightarrow> c @ [FillStyle ''#ffffff'', FillRect 0 0 width height])
      | None \<Rightarrow> c @ [FillStyle ''#ffffff'', FillRect 0 0 width height])"

definition draw_border :: "real \<Rightarrow> real \<Rightarrow> canvas_op list \<Rightarrow> canvas_op list" where
  "draw_border width height c =
     c @ [StrokeStyle ''#222'', LineWidth 4, StrokeRect 12 12 (width - 24) (height - 24)]"

definition draw_title ::
  "(real \<times> string \<Rightarrow> string \<Rightarrow> real) \<Rightarrow> string \<Rightarrow> real \<Rightarrow> canvas_op list \<Rightarrow> canvas_op list" where
  "draw_title measureText title width c =
     (let titleFontSize = max 18 (Math_round (width * 0.035));
          c' = c @ [FillStyle ''#111'', Font titleFontSize ''serif'', TextAlign ''center'',
                    TextBaseline ''top''];
          titleY = 36
      in wrapText measureText c' title (width / 2) titleY (width - 80) (titleFontSize + 6))"

definition draw_numbers :: "real \<Rightarrow> real \<Rightarrow> stats \<Rightarrow> canvas_op list \<Rightarrow> canvas_op list" where
  "draw_numbers width height stats c =
     (let g = exportLayout width height;
          numberFontSize = max 12 (Math_round (circleRadius g * 0.4));
          c5 = c @ [FillStyle ''#ffffff'', TextAlign ''center'', TextBaseline ''middle'',
                    Font numberFontSize ''sans-serif'', ShadowColor ''rgba(0,0,0,0.5)'',
                    ShadowBlur 2];
          c6 = drawStatAtAngle (cx g) (cy g) (numberRadius g) stats 270 ''move'' c5;
          c7 = drawStatAtAngle (cx g) (cy g) (numberRadius g) stats 180 ''health'' c6;
          c8 = drawStatAtAngle (cx g) (cy g) (numberRadius g) stats 0 ''save'' c7;
          c9 = drawStatAtAngle (cx g) (cy g) (numberRadius g) stats 90 ''control'' c8
      in c9)"

definition draw_body :: "real \<Rightarrow> stats \<Rightarrow> canvas_op list \<Rightarrow> canvas_op list" where
  "draw_body width stats c =
     (let titleY = 36;
          titleFontSize = max 18 (Math_round (width * 0.035));
          bodyFontSize = max 12 (Math_round (width * 0.02));
          c10 = c @ [Font bodyFontSize ''sans-serif'', TextAlign ''left'', FillStyle ''#333''];
          contentStart = Math_round (titleY + titleFontSize + 16);
          lineHeight = Math_round (bodyFontSize * 1.5);
          sample =
            [''Unit Type: Custom'',
             ''Move: '' @ or_dash (formatStatForDisplay ''move'' (stats ''move'')),
             ''Wounds: '' @ or_dash (formatStatForDisplay ''health'' (stats ''health'')),
             ''Save: '' @ or_dash (formatStatForDisplay ''save'' (stats ''save'')),
             ''Control: '' @ or_dash (formatStatForDisplay ''control'' (stats ''control'')),
             [],
             ''Abilities:'',
             ''- Example ability 1'',
             ''- Example ability 2''];
          c11 = c10 @ map (\<lambda>(idx, line). FillText line 48 (contentStart + real idx * lineHeight))
                        (enumerate 0 sample)
      in c11 @ [ShadowBlur 0])"

definition draw_content ::
  "(real \<times> string \<Rightarrow> string \<Rightarrow> real) \<Rightarrow> string \<Rightarrow> real \<Rightarrow> real \<Rightarrow> stats \<Rightarrow> canvas_op list \<Rightarrow>
   canvas_op list" where
  "draw_content measureText title width height stats c1 =
     draw_body width stats
       (draw_numbers width height stats
          (draw_title measureText title width
             (draw_border width height c1)))"

definition drawWarscrollCanvas ::
  "(real \<times> string \<Rightarrow> string \<Rightarrow> real) \<Rightarrow> real \<Rightarrow> string \<Rightarrow> real \<Rightarrow> real \<Rightarrow> image option \<Rightarrow> stats \<Rightarrow>
   js_error + canvas" where
  "drawWarscrollCanvas measureText devicePixelRatio title width height bgImg stats =
     (let dpr = (if devicePixelRatio = 0 then 1 else devicePixelRatio);
          c0 = [Scale dpr dpr];
          c1 = draw_background bgImg width height c0;
          c12 = draw_content measureText title width height stats c1
      in Inr \<lparr>canvas_width = Math_round (width * dpr), canvas_height = Math_round (height * dpr),
              style_width = width, style_height = height, ctx = c12\<rparr>)"




section \<open>The overlay of the preview\<close>

text \<open>
  An attribute value is a string, or a Number that the program hands to
  \<^verbatim>\<open>setAttribute\<close> or prints into a template: \<open>Num\<close> as it is, \<open>Fixed2\<close> through
  \<^verbatim>\<open>toFixed(2)\<close>, \<open>ViewBox w h\<close> for \<^verbatim>\<open>0 0 w h\<close>, \<open>PathD\<close> for the text of an arc and
  \<open>Translate tx ty\<close> for \<^verbatim>\<open>translate(tx ty)\<close> with both printed by \<^verbatim>\<open>toFixed(2)\<close>.
  The properties of \<^verbatim>\<open>svg.style\<close> are listed with the attributes, under
  \<^verbatim>\<open>style.<property>\<close>.
\<close>

datatype attr_value =
    Str string
  | Num real
  | Fixed2 real
  | ViewBox real real
  | PathD arc_path
  | Translate real real

datatype node =
    Element (node_tag: string) (node_attrs: "(string \<times> attr_value) list")
      (node_children: "node list")
  | TextNode string

text \<open>\<^verbatim>\<open>element.textContent = s\<close> on an element without children.\<close>

definition text_children :: "string \<Rightarrow> node list" where
  "text_children s = (if s = [] then [] else [TextNode s])"

text \<open>The selector \<^verbatim>\<open>.quarter-labels-overlay\<close>: an element with that class token.\<close>

definition class_tokens :: "node \<Rightarrow> string list" where
  "class_tokens n =
     (case n of
        TextNode _ \<Rightarrow> []
      | Element _ attrs _ \<Rightarrow>
          (case map_of attrs ''class'' of
             Some (Str c) \<Rightarrow> filter (\<lambda>w. w \<noteq> []) (split_space c)
           | _ \<Rightarrow> []))"

definition is_overlay :: "node \<Rightarrow> bool" where
  "is_overlay n = (''quarter-labels-overlay'' \<in> set (class_tokens n))"

text \<open>
  \<^verbatim>\<open>querySelector\<close> finds the first matching descendant in document order and
  \<^verbatim>\<open>existing.remove()\<close> takes it out of the tree; \<open>None\<close> when nothing matches.
\<close>

fun remove_first_overlay :: "node list \<Rightarrow> node list option" where
  "remove_first_overlay [] = None"
| "remove_first_overlay (TextNode s # ns) =
     map_option ((#) (TextNode s)) (remove_first_overlay ns)"
| "remove_first_overlay (Element t a kids # ns) =
     (if is_overlay (Element t a kids) then Some ns
      else
        (case remove_first_overlay kids of
           Some kids' \<Rightarrow> Some (Element t a kids' # ns)
         | None \<Rightarrow> map_option ((#) (Element t a kids)) (remove_first_overlay ns)))"

text \<open>The number of overlay elements among the nodes and all their descendants.\<close>

fun count_overlays :: "node list \<Rightarrow> nat" where
  "count_overlays [] = 0"
| "count_overlays (TextNode s # ns) = count_overlays ns"
| "count_overlays (Element t a kids # ns) =
     (if is_overlay (Element t a kids) then 1 else 0) + count_overlays kids + count_overlays ns"

record quarter_spec =
  spec_id :: string
  centerAngle :: real
  spec_label :: string
  spec_reverse :: bool

text \<open>\<^verbatim>\<open>quarters.right || ""\<close>: the label of the translations, or the empty string.\<close>

definition label_of :: "(string \<rightharpoonup> string) \<Rightarrow> string \<Rightarrow> string" where
  "label_of quarters k = (case quarters k of None \<Rightarrow> [] | Some s \<Rightarrow> s)"

definition quartersSpecs :: "(string \<rightharpoonup> string) \<Rightarrow> quarter_spec list" where
  "quartersSpecs quarters =
     [\<lparr>spec_id = ''q-right'', centerAngle = 0, spec_label = label_of quarters ''right'',
       spec_reverse = False\<rparr>,
      \<lparr>spec_id = ''q-bottom'', centerAngle = 90, spec_label = label_of quarters ''bottom'',
       spec_reverse = True\<rparr>,
      \<lparr>spec_id = ''q-left'', centerAngle = 180, spec_label = label_of quarters ''left'',
       spec_reverse = False\<rparr>,
      \<lparr>spec_id = ''q-top'', centerAngle = 270, spec_label = label_of quarters ''top'',
       spec_reverse = False\<rparr>]"

text \<open>The body of the first \<^verbatim>\<open>quartersSpecs.forEach\<close>, lines 291 to 302.\<close>

definition quarter_path :: "preview_layout \<Rightarrow> quarter_spec \<Rightarrow> node" where
  "quarter_path g spec =
     (let startAngle = centerAngle spec - 45;
          endAngle = centerAngle spec + 45;
          pathD = (if spec_reverse spec
                   then arcPathD (cx g) (cy g) (textRadius g) endAngle startAngle
                   else arcPathD (cx g) (cy g) (textRadius g) startAngle endAngle)
      in Element ''path'' [(''id'', Str (spec_id spec)), (''d'', PathD pathD)] [])"

text \<open>The body of the second \<^verbatim>\<open>quartersSpecs.forEach\<close>, lines 307 to 331.\<close>

definition quarter_text :: "preview_layout \<Rightarrow> quarter_spec \<Rightarrow> node" where
  "quarter_text g spec =
     (let fontSize = max 10 (Math_round (circleRadius g * 0.15));
          textPath = Element ''textPath''
                       [(''href'', Str (''#'' @ spec_id spec)), (''startOffset'', Str ''50%'')]
                       (text_children (spec_label spec));
          transform =
            (if spec_id spec = ''q-bottom'' then
               (let angleRad = (centerAngle spec * pi) / 180;
                    offset = circleRadius g * 0.99
                in [(''transform'', Translate (- cos angleRad * offset) (- sin angleRad * offset))])
             else [])
      in Element ''text''
           ([(''fill'', Str ''#ffffff''), (''font-weight'', Str ''700''), (''font-size'', Num fontSize),
             (''text-anchor'', Str ''middle''), (''dominant-baseline'', Str ''middle'')] @ transform)
           [textPath])"

definition statsMap :: "(real \<times> string) list" where
  "statsMap = [(270, ''move''), (180, ''health''), (0, ''save''), (90, ''control'')]"

text \<open>
  The body of \<^verbatim>\<open>statsMap.forEach\<close>, lines 342 to 358: the elements it appends, none when
  the formatted stat is empty.
\<close>

definition stat_number :: "preview_layout \<Rightarrow> stats \<Rightarrow> real \<times> string \<Rightarrow> node list" where
  "stat_number g stats s =
     (let raw = stats (snd s);
          formatted = formatStatForDisplay (snd s) raw
      in if formatted = [] then []
         else
           (let p = polarToCartesian (cx g) (cy g) (numberRadius g) (fst s);
                numFontSize = max 12 (Math_round (circleRadius g * 0.3))
            in [Element ''text''
                  [(''x'', Fixed2 (px p)), (''y'', Fixed2 (py p)), (''fill'', Str ''#ffffff''),
                   (''font-weight'', Str ''700''), (''font-size'', Num numFontSize),
                   (''text-anchor'', Str ''middle''), (''dominant-baseline'', Str ''middle'')]
                  (text_children formatted)]))"

text \<open>The overlay that \<^verbatim>\<open>renderQuarterLabels\<close> builds, lines 256 to 358.\<close>

definition overlay_svg :: "real \<Rightarrow> real \<Rightarrow> (string \<rightharpoonup> string) \<Rightarrow> stats \<Rightarrow> node" where
  "overlay_svg imgWidth imgHeight quarters stats =
     (let g = previewLayout imgWidth imgHeight;
          specs = quartersSpecs quarters;
          defs = Element ''defs'' [] (map (quarter_path g) specs);
          labels = map (quarter_text g) specs;
          numbers = concat (map (stat_number g stats) statsMap)
      in Element ''svg''
           [(''class'', Str ''quarter-labels-overlay''), (''width'', Str ''100%''),
            (''height'', Str ''100%''), (''viewBox'', ViewBox imgWidth imgHeight),
            (''preserveAspectRatio'', Str ''xMinYMin meet''), (''style.position'', Str ''absolute''),
            (''style.left'', Str ''0''), (''style.top'', Str ''0''),
            (''style.pointerEvents'', Str ''none''), (''style.overflow'', Str ''visible'')]
           (defs # labels @ numbers))"

text \<open>
  \<^verbatim>\<open>renderQuarterLabels(previewInner, previewBox, imgWidth, imgHeight, quarters, stats)\<close>,
  lines 250 to 362, as the container after the call (\<^verbatim>\<open>previewBox\<close> is not used by the
  source). A text node has no \<^verbatim>\<open>querySelector\<close>.
\<close>

definition renderQuarterLabels ::
  "node \<Rightarrow> real \<Rightarrow> real \<Rightarrow> (string \<rightharpoonup> string) \<Rightarrow> stats \<Rightarrow> js_error + node" where
  "renderQuarterLabels previewInner imgWidth imgHeight quarters stats =
     (case previewInner of
        TextNode _ \<Rightarrow> Inl TypeError
      | Element t a kids \<Rightarrow>
          (let kids' = (case remove_first_overlay kids of Some ks \<Rightarrow> ks | None \<Rightarrow> kids);
               svg = overlay_svg imgWidth imgHeight quarters stats
           in Inr (Element t a (kids' @ [svg]))))"

text \<open>Successive calls on the same container, each with its own arguments.\<close>

fun render_all ::
  "(real \<times> real \<times> (string \<rightharpoonup> string) \<times> stats) list \<Rightarrow> node \<Rightarrow> js_error + node" where
  "render_all [] n = Inr n"
| "render_all ((w, h, q, s) # calls) n =
     (case renderQuarterLabels n w h q s of
        Inl e \<Rightarrow> Inl e
      | Inr n' \<Rightarrow> render_all calls n')"

text \<open>
  The container that \<^verbatim>\<open>bootstrap\<close> creates (lines 531, 572 to 577): the title and the
  content block with its placeholder paragraph.
\<close>

definition previewInner_initial :: node where
  "previewInner_initial =
     Element ''div'' [(''style'', Str ''position:relative;padding:1rem;box-sizing:border-box;width:100%;height:100%;display:flex;flex-direction:column;justify-content:flex-start;align-items:flex-start;background:transparent;'')]
       [Element ''h2'' [(''style'', Str ''margin:0 0 8px 0;text-align:left;color:var(--title-color);width:100%'')] [TextNode []],
        Element ''div'' [(''style'', Str ''text-align:left;color:var(--text-color);width:100%'')]
          [Element ''p'' [(''class'', Str ''placeholder''), (''style'', Str ''margin:0.5rem 0'')] [TextNode []]]]"

section \<open>Sample inputs\<close>

text \<open>
  Concrete inputs for the examples below: a text measure that gives every character 0.6
  of the font size, the English labels that the program falls back to (lines 502 to 505),
  and an image in the broken state, which has no natural size and cannot be drawn.
\<close>

definition sample_measure :: "real \<times> string \<Rightarrow> string \<Rightarrow> real" where
  "sample_measure font text = fst font * 0.6 * real (length text)"

definition english_quarters :: "string \<rightharpoonup> string" where
  "english_quarters =
     [''top'' \<mapsto> ''MOVE'', ''left'' \<mapsto> ''HEALTH'', ''right'' \<mapsto> ''SAVE'', ''bottom'' \<mapsto> ''CONTROL'']"


section \<open>Properties of the input handler and the formatter\<close>

lemma number_of_nat_small: "n < 2 ^ 53 \<Longrightarrow> number_of_nat n = Fin (int n) 0"
  by (simp add: number_of_nat_def)

lemma number_of_nat_cases:
  "number_of_nat n = PosInf \<or> (\<exists>m. 0 \<le> m \<and> number_of_nat n = Fin m 0)"
  by (simp add: number_of_nat_def whole_number_def)

lemma number_of_nat_finite:
  assumes "n < 10 ^ 308"
  shows "\<exists>m. 0 \<le> m \<and> number_of_nat n = Fin m 0"
proof -
  have "(10::nat) ^ 308 \<le> 2 ^ 1024 - 2 ^ 970" by simp
  with assms have "n < 2 ^ 1024 - 2 ^ 970" by (rule less_le_trans)
  then have "\<not> 2 ^ 1024 - 2 ^ 970 \<le> n" by (simp only: not_le)
  then show ?thesis by (simp add: number_of_nat_def whole_number_def)
qed

lemma shortest_digits_if:
  "shortest_digits dbl x n kmax k =
     (if digits_at dbl x n k (kmax \<le> k) = None then shortest_digits dbl x n kmax (k + 1)
      else (the (digits_at dbl x n k (kmax \<le> k)), k))"
  by (subst shortest_digits.simps) (simp split: option.splits)

lemmas eval_defs = formatStatForDisplay_def parseInt_def parseInt_string_def is_ws_def
  white_space_code_units_def is_digit_def number_of_nat_small
  nat_of_digits_def digit_val_def digits10.simps digit_char_def strip_trailing_zeros_def
  to_string_digits_def exponent_part_def oninput_def initial_stats_def dquote_def Let_def
  trunc_div_def num_lt_def num_eq_def

lemmas double_defs = number_of_nat_def whole_number_def whole_digits_def nearest_double_def
  binary_exponent_def round_half_even_def double_fraction_def times_pow2_def times_pow10_def
  bitlen.simps lead.simps decimal_position_def digits_at_def choose_digits_def roundtrips_def
  lower_digits_def lower_closer_def shortest_digits_if digits10.simps digit_char_def Let_def

lemma is_digit_val: "is_digit c \<Longrightarrow> digit_val c < 10"
  by (auto simp: is_digit_def digit_val_def)

lemma nat_of_digits_snoc: "nat_of_digits (cs @ [c]) = 10 * nat_of_digits cs + digit_val c"
  by (simp add: nat_of_digits_def)

lemma nat_of_digits_less: "list_all is_digit cs \<Longrightarrow> nat_of_digits cs < 10 ^ length cs"
proof (induction cs rule: rev_induct)
  case Nil
  show ?case by (simp add: nat_of_digits_def)
next
  case (snoc c cs)
  then have "nat_of_digits cs < 10 ^ length cs" and "digit_val c < 10"
    by (simp_all add: is_digit_val)
  then have "10 * nat_of_digits cs + digit_val c < 10 * 10 ^ length cs" by linarith
  then show ?case by (simp add: nat_of_digits_snoc)
qed

lemma nat_of_digits_one_zeros: "nat_of_digits (CHR ''1'' # replicate k (CHR ''0'')) = 10 ^ k"
proof (induction k)
  case 0
  show ?case by (simp add: nat_of_digits_def digit_val_def)
next
  case (Suc k)
  have "CHR ''1'' # replicate (Suc k) (CHR ''0'') = (CHR ''1'' # replicate k (CHR ''0'')) @ [CHR ''0'']"
    by (simp add: replicate_append_same)
  with Suc show ?case by (simp only: nat_of_digits_snoc) (simp add: digit_val_def)
qed

lemma parseInt_string_digits:
  "\<exists>Z. length Z \<le> length s \<and> list_all is_digit Z \<and>
       (parseInt_string s = NaN \<or> parseInt_string s = number_of_nat (nat_of_digits Z) \<or>
        parseInt_string s = negate (number_of_nat (nat_of_digits Z)))"
proof (cases "dropWhile is_ws s")
  case Nil
  have "parseInt_string s = NaN" unfolding parseInt_string_def Nil by simp
  then show ?thesis by (intro exI [of _ "[]"]) simp
next
  case (Cons c cs)
  define T where "T = (if c = CHR ''+'' \<or> c = CHR ''-'' then cs else c # cs)"
  define Z where "Z = takeWhile is_digit T"
  have "length (c # cs) \<le> length s" using length_dropWhile_le [of is_ws s] Cons by simp
  moreover have "length T \<le> length (c # cs)" by (simp add: T_def)
  moreover have "length Z \<le> length T" unfolding Z_def by (rule length_takeWhile_le)
  ultimately have "length Z \<le> length s" by linarith
  moreover have "list_all is_digit Z"
    unfolding Z_def list_all_iff by (auto dest: set_takeWhileD)
  moreover have "parseInt_string s = NaN \<or> parseInt_string s = number_of_nat (nat_of_digits Z) \<or>
        parseInt_string s = negate (number_of_nat (nat_of_digits Z))"
    unfolding parseInt_string_def Cons by (simp add: Let_def Z_def T_def)
  ultimately show ?thesis by blast
qed

lemma parseInt_string_cases:
  "parseInt_string s = NaN \<or> parseInt_string s = PosInf \<or> parseInt_string s = NegInf \<or>
   (\<exists>m. parseInt_string s = Fin m 0)"
proof -
  from parseInt_string_digits [of s] obtain Z where
    "parseInt_string s = NaN \<or> parseInt_string s = number_of_nat (nat_of_digits Z) \<or>
     parseInt_string s = negate (number_of_nat (nat_of_digits Z))"
    by blast
  with number_of_nat_cases [of "nat_of_digits Z"] show ?thesis by auto
qed

lemma parseInt_string_short:
  assumes "length s \<le> 308"
  shows "parseInt_string s = NaN \<or> (\<exists>m. parseInt_string s = Fin m 0)"
proof -
  from parseInt_string_digits [of s] obtain Z where
    z: "length Z \<le> length s" "list_all is_digit Z" and
    p: "parseInt_string s = NaN \<or> parseInt_string s = number_of_nat (nat_of_digits Z) \<or>
        parseInt_string s = negate (number_of_nat (nat_of_digits Z))"
    by blast
  from z(1) assms have "length Z \<le> 308" by simp
  then have "(10::nat) ^ length Z \<le> 10 ^ 308" by (rule power_increasing) simp
  with nat_of_digits_less [OF z(2)] have "nat_of_digits Z < 10 ^ 308" by (rule less_le_trans)
  from number_of_nat_finite [OF this] obtain m where "number_of_nat (nat_of_digits Z) = Fin m 0"
    by blast
  with p show ?thesis by auto
qed

lemma parseInt_one_zeros:
  "parseInt_string (CHR ''1'' # replicate k (CHR ''0'')) = number_of_nat (10 ^ k)"
  by (simp add: parseInt_string_def Let_def is_ws_def white_space_code_units_def is_digit_def
      takeWhile_replicate nat_of_digits_one_zeros)

lemma oninput_save:
  assumes "v \<noteq> ''''" and "parseInt (JStr v) = Fin m 0"
  shows "oninput ''save'' v stats ''save'' = JNum (Fin (max 1 (min 6 m)) 0)"
  using assms by (simp add: oninput_def Let_def max_def min_def num_lt_def)

lemma oninput_save_inf:
  assumes "v \<noteq> ''''"
  shows "parseInt (JStr v) = PosInf \<Longrightarrow> oninput ''save'' v stats ''save'' = JNum (Fin 6 0)"
    and "parseInt (JStr v) = NegInf \<Longrightarrow> oninput ''save'' v stats ''save'' = JNum (Fin 1 0)"
  using assms by (simp_all add: oninput_def Let_def num_lt_def)

lemma oninput_other:
  assumes "v \<noteq> ''''" and "key \<noteq> ''save''" and "parseInt (JStr v) = Fin m 0"
  shows "oninput key v stats key = JNum (Fin (max 0 m) 0)"
  using assms by (simp add: oninput_def Let_def max_def num_lt_def)

lemma oninput_other_inf:
  assumes "v \<noteq> ''''" and "key \<noteq> ''save''"
  shows "parseInt (JStr v) = PosInf \<Longrightarrow> oninput key v stats key = JNum PosInf"
    and "parseInt (JStr v) = NegInf \<Longrightarrow> oninput key v stats key = JNum (Fin 0 0)"
  using assms by (simp_all add: oninput_def Let_def num_lt_def)


lemma oninput_frame: "k \<noteq> key \<Longrightarrow> oninput key v stats k = stats k"
  by (auto simp: oninput_def Let_def)

lemma oninput_save_range:
  assumes "v \<noteq> ''''" and "\<not> isNaN (parseInt (JStr v))"
  shows "\<exists>c. 1 \<le> c \<and> c \<le> 6 \<and> oninput ''save'' v stats ''save'' = JNum (Fin c 0)"
proof -
  from parseInt_string_cases [of v] assms(2)
  consider "parseInt (JStr v) = PosInf" | "parseInt (JStr v) = NegInf"
    | m where "parseInt (JStr v) = Fin m 0"
    by (auto simp: parseInt_def)
  then show ?thesis
  proof cases
    case 1
    from oninput_save_inf(1) [OF assms(1) this] show ?thesis by simp
  next
    case 2
    from oninput_save_inf(2) [OF assms(1) this] show ?thesis by simp
  next
    case 3
    have "1 \<le> max 1 (min 6 m)" "max 1 (min 6 m) \<le> 6" by simp_all
    with oninput_save [OF assms(1) 3] show ?thesis by blast
  qed
qed

lemma oninput_save_ok: "save_ok (oninput ''save'' v stats ''save'')"
proof (cases "v = '''' \<or> isNaN (parseInt (JStr v))")
  case True
  then show ?thesis by (auto simp: oninput_def)
next
  case False
  with oninput_save_range [of v stats] obtain c where
    "1 \<le> c" "c \<le> 6" "oninput ''save'' v stats ''save'' = JNum (Fin c 0)"
    by blast
  then show ?thesis by (simp add: num_lt_def)
qed

lemma oninput_stat_ok_inf: "key \<noteq> ''save'' \<Longrightarrow> stat_ok_inf (oninput key v stats key)"
proof (cases "v = ''''")
  case True
  then show ?thesis by (simp add: oninput_def)
next
  case False
  assume k: "key \<noteq> ''save''"
  from parseInt_string_cases [of v]
  consider "parseInt (JStr v) = NaN" | "parseInt (JStr v) = PosInf" | "parseInt (JStr v) = NegInf"
    | m where "parseInt (JStr v) = Fin m 0"
    by (auto simp: parseInt_def)
  then show ?thesis
  proof cases
    case 1
    then show ?thesis using k by (simp add: oninput_def)
  next
    case 2
    from oninput_other_inf(1) [OF False k this] show ?thesis by simp
  next
    case 3
    from oninput_other_inf(2) [OF False k this] show ?thesis by simp
  next
    case 4
    from oninput_other [OF False k this] show ?thesis by (simp add: max_def)
  qed
qed

lemma oninput_stat_ok:
  assumes "key \<noteq> ''save''" and "length v \<le> 308"
  shows "stat_ok (oninput key v stats key)"
proof (cases "v = ''''")
  case True
  then show ?thesis by (simp add: oninput_def)
next
  case False
  from parseInt_string_short [OF assms(2)] show ?thesis
  proof
    assume "parseInt_string v = NaN"
    then show ?thesis using assms(1) by (simp add: oninput_def parseInt_def)
  next
    assume "\<exists>m. parseInt_string v = Fin m 0"
    then obtain m where "parseInt (JStr v) = Fin m 0" by (auto simp: parseInt_def)
    from oninput_other [OF False assms(1) this] show ?thesis by (simp add: max_def)
  qed
qed

lemma oninput_inv_inf:
  assumes "key \<in> set stat_keys" and "stats_inv_inf stats"
  shows "stats_inv_inf (oninput key v stats)"
proof -
  from assms(1) consider "key = ''move''" | "key = ''health''" | "key = ''save''" | "key = ''control''"
    by (auto simp: stat_keys_def)
  then show ?thesis
  proof cases
    case 1
    with assms(2) oninput_stat_ok_inf [of "''move''" v stats] show ?thesis
      by (simp add: stats_inv_inf_def oninput_frame)
  next
    case 2
    with assms(2) oninput_stat_ok_inf [of "''health''" v stats] show ?thesis
      by (simp add: stats_inv_inf_def oninput_frame)
  next
    case 3
    with assms(2) oninput_save_ok [of v stats] show ?thesis
      by (simp add: stats_inv_inf_def oninput_frame)
  next
    case 4
    with assms(2) oninput_stat_ok_inf [of "''control''" v stats] show ?thesis
      by (simp add: stats_inv_inf_def oninput_frame)
  qed
qed

lemma oninput_inv:
  assumes "key \<in> set stat_keys" and "stats_inv stats" and "length v \<le> 308"
  shows "stats_inv (oninput key v stats)"
proof -
  from assms(1) consider "key = ''move''" | "key = ''health''" | "key = ''save''" | "key = ''control''"
    by (auto simp: stat_keys_def)
  then show ?thesis
  proof cases
    case 1
    with assms(2) oninput_stat_ok [of "''move''" v stats] assms(3) show ?thesis
      by (simp add: stats_inv_def oninput_frame)
  next
    case 2
    with assms(2) oninput_stat_ok [of "''health''" v stats] assms(3) show ?thesis
      by (simp add: stats_inv_def oninput_frame)
  next
    case 3
    with assms(2) oninput_save_ok [of v stats] show ?thesis
      by (simp add: stats_inv_def oninput_frame)
  next
    case 4
    with assms(2) oninput_stat_ok [of "''control''" v stats] assms(3) show ?thesis
      by (simp add: stats_inv_def oninput_frame)
  qed
qed

lemma run_inputs_inv_inf:
  "set (map fst evs) \<subseteq> set stat_keys \<Longrightarrow> stats_inv_inf stats \<Longrightarrow>
   stats_inv_inf (run_inputs evs stats)"
proof (induction evs arbitrary: stats)
  case Nil
  then show ?case by simp
next
  case (Cons ev evs)
  obtain key v where ev: "ev = (key, v)" by (cases ev)
  with Cons.prems have "key \<in> set stat_keys" by simp
  then have "stats_inv_inf (oninput key v stats)" using Cons.prems(2) by (rule oninput_inv_inf)
  with Cons ev show ?case by simp
qed

lemma run_inputs_inv:
  "set (map fst evs) \<subseteq> set stat_keys \<Longrightarrow> list_all (\<lambda>ev. length (snd ev) \<le> 308) evs \<Longrightarrow>
   stats_inv stats \<Longrightarrow> stats_inv (run_inputs evs stats)"
proof (induction evs arbitrary: stats)
  case Nil
  then show ?case by simp
next
  case (Cons ev evs)
  obtain key v where ev: "ev = (key, v)" by (cases ev)
  with Cons.prems have "key \<in> set stat_keys" and "length v \<le> 308" by simp_all
  with Cons.prems(3) have "stats_inv (oninput key v stats)" by (simp add: oninput_inv)
  with Cons ev show ?case by simp
qed



text \<open>
  C10, as stated, fails: \<^verbatim>\<open>parseInt\<close> reads a 1 followed by 309 zeros as Infinity, which
  is not below 0, and the handler of the \<^verbatim>\<open>health\<close> input stores \<^verbatim>\<open>Math.floor(Infinity)\<close>,
  that is Infinity, which is not a non-negative integer.
\<close>

theorem stats_invariant_counterexample:
  "''health'' \<in> set stat_keys \<and>
   parseInt (JStr (CHR ''1'' # replicate 309 (CHR ''0''))) = PosInf \<and>
   run_inputs [(''health'', CHR ''1'' # replicate 309 (CHR ''0''))] initial_stats ''health'' =
     JNum PosInf \<and>
   \<not> stats_inv (run_inputs [(''health'', CHR ''1'' # replicate 309 (CHR ''0''))] initial_stats)"
proof -
  have "number_of_nat (10 ^ 309) = PosInf" by (simp add: number_of_nat_def)
  then have p: "parseInt (JStr (CHR ''1'' # replicate 309 (CHR ''0''))) = PosInf"
    by (simp add: parseInt_def parseInt_one_zeros)
  have "CHR ''1'' # replicate 309 (CHR ''0'') \<noteq> ''''" by simp
  from oninput_other_inf(1) [OF this _ p, of "''health''" initial_stats]
  have h: "oninput ''health'' (CHR ''1'' # replicate 309 (CHR ''0'')) initial_stats ''health'' =
      JNum PosInf"
    by simp
  then have "\<not> stats_inv (oninput ''health'' (CHR ''1'' # replicate 309 (CHR ''0'')) initial_stats)"
    by (simp add: stats_inv_def)
  with p h show ?thesis by (simp add: stat_keys_def)
qed

text \<open>
  C10, amended: the four stats start as the empty string, and after every sequence of
  input events on the four inputs \<^verbatim>\<open>save\<close> is the empty string or a whole Number between 1
  and 6, and each of \<^verbatim>\<open>move\<close>, \<^verbatim>\<open>health\<close> and \<^verbatim>\<open>control\<close> is the empty string, a
  non-negative whole Number or Infinity; no stat, \<^verbatim>\<open>move\<close> included, is ever fractional,
  negative or NaN. When every input value has at most 308 characters, no stat is
  Infinity: each is the empty string or a non-negative whole Number.
\<close>

theorem stats_invariant:
  "list_all (\<lambda>k. initial_stats k = JStr '''') stat_keys \<and>
   (set (map fst evs) \<subseteq> set stat_keys \<longrightarrow> stats_inv_inf (run_inputs evs initial_stats)) \<and>
   (set (map fst evs) \<subseteq> set stat_keys \<and> list_all (\<lambda>ev. length (snd ev) \<le> 308) evs \<longrightarrow>
      stats_inv (run_inputs evs initial_stats))"
proof (intro conjI impI)
  show "list_all (\<lambda>k. initial_stats k = JStr '''') stat_keys"
    by (simp add: stat_keys_def initial_stats_def)
next
  have "stats_inv_inf initial_stats" by (simp add: stats_inv_inf_def initial_stats_def)
  moreover assume "set (map fst evs) \<subseteq> set stat_keys"
  ultimately show "stats_inv_inf (run_inputs evs initial_stats)" by (simp add: run_inputs_inv_inf)
next
  have "stats_inv initial_stats" by (simp add: stats_inv_def initial_stats_def)
  moreover assume "set (map fst evs) \<subseteq> set stat_keys \<and> list_all (\<lambda>ev. length (snd ev) \<le> 308) evs"
  ultimately show "stats_inv (run_inputs evs initial_stats)" by (simp add: run_inputs_inv)
qed

theorem stats_invariant_witness:
  "set (map fst [(''move'', ''6.5''), (''save'', ''9''), (''health'', ''-2'')]) \<subseteq> set stat_keys \<and>
   list_all (\<lambda>ev. length (snd ev) \<le> 308) [(''move'', ''6.5''), (''save'', ''9''), (''health'', ''-2'')] \<and>
   stats_inv_inf (run_inputs [(''move'', ''6.5''), (''save'', ''9''), (''health'', ''-2'')] initial_stats) \<and>
   stats_inv (run_inputs [(''move'', ''6.5''), (''save'', ''9''), (''health'', ''-2'')] initial_stats) \<and>
   run_inputs [(''move'', ''6.5''), (''save'', ''9''), (''health'', ''-2'')] initial_stats ''move'' = JNum (Fin 6 0)"
proof -
  have s: "set (map fst [(''move'', ''6.5''), (''save'', ''9''), (''health'', ''-2'')]) \<subseteq> set stat_keys"
    by (simp add: stat_keys_def)
  have l: "list_all (\<lambda>ev. length (snd ev) \<le> 308) [(''move'', ''6.5''), (''save'', ''9''), (''health'', ''-2'')]"
    by simp
  have m: "run_inputs [(''move'', ''6.5''), (''save'', ''9''), (''health'', ''-2'')] initial_stats ''move'' = JNum (Fin 6 0)"
    by (simp add: eval_defs)
  from stats_invariant [of "[(''move'', ''6.5''), (''save'', ''9''), (''health'', ''-2'')]"] s l m
  show ?thesis by blast
qed

text \<open>
  C1: the handler of the \<^verbatim>\<open>move\<close> input reads its text with \<^verbatim>\<open>parseInt\<close>, as it does for
  \<^verbatim>\<open>health\<close> and \<^verbatim>\<open>control\<close>: the input \<^verbatim>\<open>6.5\<close> is stored as 6 and displayed as \<^verbatim>\<open>6"\<close>,
  although the formatter would display the Number 6.5 as \<^verbatim>\<open>6.5"\<close>; a negative input is
  stored as 0, not as the empty string.
\<close>

theorem move_input_truncated:
  "oninput ''move'' ''6.5'' initial_stats ''move'' = JNum (Fin 6 0) \<and>
   formatStatForDisplay ''move'' (oninput ''move'' ''6.5'' initial_stats ''move'') = ''6'' @ [dquote] \<and>
   formatStatForDisplay ''move'' (JNum (Fin 65 1)) = ''6.5'' @ [dquote] \<and>
   oninput ''move'' ''-3'' initial_stats ''move'' = JNum (Fin 0 0)"
  by (simp add: eval_defs)

section \<open>Formatting of whole Numbers below \<open>2\<^sup>5\<^sup>3\<close>\<close>

text \<open>
  Below \<open>10\<^sup>2\<^sup>1\<close> the text of a whole Number is its decimal digits; below \<open>2\<^sup>5\<^sup>3\<close>, where
  every whole number is a double, \<^verbatim>\<open>parseInt\<close> reads them back and the formatter displays
  the Number itself.
\<close>

lemma digit_char_is_digit: "d < 10 \<Longrightarrow> is_digit (digit_char d)"
proof -
  assume "d < 10"
  then have "d \<in> {0, 1, 2, 3, 4, 5, 6, 7, 8, 9}" by auto
  then show ?thesis by (auto simp: is_digit_def digit_char_def)
qed

lemma digit_val_digit_char: "d < 10 \<Longrightarrow> digit_val (digit_char d) = d"
proof -
  assume "d < 10"
  then have "d \<in> {0, 1, 2, 3, 4, 5, 6, 7, 8, 9}" by auto
  then show ?thesis by (auto simp: digit_val_def digit_char_def)
qed

lemma is_digit_not_special:
  "is_digit c \<Longrightarrow> \<not> is_ws c \<and> c \<noteq> CHR ''+'' \<and> c \<noteq> CHR ''-''"
  by (auto simp: is_digit_def is_ws_def white_space_code_units_def)

lemma digits10_all_digits: "list_all is_digit (digits10 n)"
proof (induction n rule: digits10.induct)
  case (1 n)
  show ?case
  proof (cases "n < 10")
    case True
    then show ?thesis by (subst digits10.simps) (simp add: digit_char_is_digit)
  next
    case False
    with 1 show ?thesis by (subst digits10.simps) (simp add: digit_char_is_digit)
  qed
qed

lemma digits10_nonempty: "digits10 n \<noteq> []"
  by (subst digits10.simps) simp

lemma nat_of_digits_digits10: "nat_of_digits (digits10 n) = n"
proof (induction n rule: digits10.induct)
  case (1 n)
  show ?case
  proof (cases "n < 10")
    case True
    then show ?thesis
      by (subst digits10.simps) (simp add: nat_of_digits_def digit_val_digit_char)
  next
    case False
    with 1 show ?thesis
      by (subst digits10.simps) (simp add: nat_of_digits_snoc digit_val_digit_char)
  qed
qed

lemma length_digits10: "0 < k \<Longrightarrow> n < 10 ^ k \<Longrightarrow> length (digits10 n) \<le> k"
proof (induction n arbitrary: k rule: digits10.induct)
  case (1 n)
  show ?case
  proof (cases "n < 10")
    case True
    with "1.prems" show ?thesis by (subst digits10.simps) simp
  next
    case False
    with "1.prems" have k: "1 < k" by (cases "k = 1") auto
    then obtain j where j: "k = Suc j" "0 < j" by (cases k) auto
    with "1.prems" have "n div 10 < 10 ^ j"
      by (simp add: less_mult_imp_div_less mult.commute)
    from "1.IH" [OF False j(2) this] j False show ?thesis
      by (subst digits10.simps) simp
  qed
qed

lemma parseInt_string_digits10: "parseInt_string (digits10 n) = number_of_nat n"
proof -
  obtain c cs where d: "digits10 n = c # cs"
    using digits10_nonempty [of n] by (cases "digits10 n") auto
  from digits10_all_digits [of n] d have c: "is_digit c" and a: "list_all is_digit (c # cs)"
    by simp_all
  from a have t: "takeWhile is_digit (c # cs) = c # cs"
    by (simp add: list_all_iff)
  from is_digit_not_special [OF c] t nat_of_digits_digits10 [of n] show ?thesis
    unfolding parseInt_string_def d by (simp add: Let_def)
qed

lemma strip_trailing_zeros_pad:
  "strip_trailing_zeros ds @ replicate (length ds - length (strip_trailing_zeros ds)) (CHR ''0'') = ds"
proof -
  let ?P = "\<lambda>c. c = CHR ''0''"
  have e: "takeWhile ?P (rev ds) = replicate (length (takeWhile ?P (rev ds))) (CHR ''0'')"
    by (rule replicate_length_same [symmetric]) (auto dest: set_takeWhileD)
  have l: "length ds - length (strip_trailing_zeros ds) = length (takeWhile ?P (rev ds))"
  proof -
    have "length (takeWhile ?P (rev ds)) + length (dropWhile ?P (rev ds)) = length (rev ds)"
      by (metis length_append takeWhile_dropWhile_id)
    then show ?thesis by (simp add: strip_trailing_zeros_def)
  qed
  have "ds = rev (takeWhile ?P (rev ds) @ dropWhile ?P (rev ds))"
    by (simp only: takeWhile_dropWhile_id rev_rev_ident)
  also have "\<dots> = strip_trailing_zeros ds @ rev (takeWhile ?P (rev ds))"
    by (simp only: strip_trailing_zeros_def rev_append)
  also have "rev (takeWhile ?P (rev ds)) = replicate (length (takeWhile ?P (rev ds))) (CHR ''0'')"
    using e by (metis rev_replicate)
  finally show ?thesis using l by simp
qed

lemma length_strip_trailing_zeros: "length (strip_trailing_zeros ds) \<le> length ds"
  by (simp add: strip_trailing_zeros_def) (metis length_dropWhile_le length_rev)

lemma num_to_string_integer:
  assumes "0 \<le> n" and "n < 10 ^ 21"
  shows "num_to_string (Fin n 0) = digits10 (nat n)"
proof (cases "n = 0")
  case True
  then show ?thesis by (simp add: digits10.simps digit_char_def)
next
  case False
  let ?ds = "digits10 (nat n)"
  from assms have "nat n < 10 ^ 21" by (simp add: nat_less_iff)
  then have len: "length ?ds \<le> 21" by (intro length_digits10) simp_all
  have "nat (int (length ?ds) - int (length (strip_trailing_zeros ?ds))) =
        length ?ds - length (strip_trailing_zeros ?ds)"
    by linarith
  then have "to_string_digits (strip_trailing_zeros ?ds) (int (length ?ds)) = ?ds"
    using len length_strip_trailing_zeros [of ?ds] strip_trailing_zeros_pad [of ?ds]
    by (simp add: to_string_digits_def Let_def)
  with False assms show ?thesis by (simp add: Let_def)
qed

lemma format_integer_below:
  assumes "0 \<le> n" and "n < 2 ^ 53"
  shows "formatStatForDisplay ''save'' (JNum (Fin n 0)) = digits10 (nat n) @ ''+''"
    and "formatStatForDisplay ''health'' (JNum (Fin n 0)) = digits10 (nat n)"
    and "formatStatForDisplay ''control'' (JNum (Fin n 0)) = digits10 (nat n)"
proof -
  from assms(2) have b: "n < 10 ^ 21" by simp
  from assms have "nat n < 2 ^ 53" by (simp add: nat_less_iff)
  then have "number_of_nat (nat n) = Fin n 0" using assms(1) by (simp add: number_of_nat_small)
  then have p: "parseInt (JNum (Fin n 0)) = Fin n 0"
    using assms(1) b
    by (simp add: parseInt_def num_to_string_integer parseInt_string_digits10
        del: num_to_string.simps)
  from assms(1) have nl: "\<not> num_lt (Fin n 0) (Fin 0 0)" by (simp add: num_lt_def)
  from p nl assms(1) b show "formatStatForDisplay ''save'' (JNum (Fin n 0)) = digits10 (nat n) @ ''+''"
    by (simp add: formatStatForDisplay_def Let_def num_to_string_integer del: num_to_string.simps)
  from p nl assms(1) b show "formatStatForDisplay ''health'' (JNum (Fin n 0)) = digits10 (nat n)"
    by (simp add: formatStatForDisplay_def Let_def num_to_string_integer del: num_to_string.simps)
  from p nl assms(1) b show "formatStatForDisplay ''control'' (JNum (Fin n 0)) = digits10 (nat n)"
    by (simp add: formatStatForDisplay_def Let_def num_to_string_integer del: num_to_string.simps)
qed

lemma format_absent:
  "formatStatForDisplay key JNull = [] \<and> formatStatForDisplay key JUndefined = [] \<and>
   formatStatForDisplay key (JStr []) = []"
  by (simp add: formatStatForDisplay_def)

lemma format_move_ends_with_quote:
  assumes "\<not> isNaN n" and "\<not> num_lt n (Fin 0 0)"
  shows "\<exists>s. formatStatForDisplay ''move'' (JNum n) = s @ [dquote]"
  using assms by (simp add: formatStatForDisplay_def Let_def)

text \<open>
  C3: the formatter passes a Number through \<^verbatim>\<open>parseInt\<close>, which reads the text of the
  Number; from \<open>10\<^sup>2\<^sup>1\<close> on that text is in exponent notation (\<^verbatim>\<open>1e+21\<close>) and only its
  first digit is read, so that the whole number \<open>10\<^sup>2\<^sup>1\<close> is displayed as \<^verbatim>\<open>1+\<close> for
  \<^verbatim>\<open>save\<close> and as \<^verbatim>\<open>1\<close> for \<^verbatim>\<open>health\<close> and \<^verbatim>\<open>control\<close>; the \<^verbatim>\<open>health\<close> input stores that
  Number when its 22 digits are typed. The \<^verbatim>\<open>move\<close> branch, which converts with
  \<^verbatim>\<open>Number\<close>, keeps the value.
\<close>

theorem format_large_integer:
  "num_to_string (Fin 1000000000000000000000 0) = ''1e+21'' \<and>
   formatStatForDisplay ''save'' (JNum (Fin 1000000000000000000000 0)) = ''1+'' \<and>
   formatStatForDisplay ''health'' (JNum (Fin 1000000000000000000000 0)) = ''1'' \<and>
   formatStatForDisplay ''control'' (JNum (Fin 1000000000000000000000 0)) = ''1'' \<and>
   oninput ''health'' ''1000000000000000000000'' initial_stats ''health'' =
     JNum (Fin 1000000000000000000000 0) \<and>
   formatStatForDisplay ''move'' (JNum (Fin 1000000000000000000000 0)) = ''1e+21'' @ [dquote]"
proof -
  have n: "number_of_nat 1000000000000000000000 = Fin 1000000000000000000000 0"
    by (simp add: double_defs)
  have p: "parseInt_string ''1000000000000000000000'' = number_of_nat 1000000000000000000000"
    by (simp add: parseInt_string_def is_ws_def white_space_code_units_def is_digit_def
        nat_of_digits_def digit_val_def Let_def)
  have s: "num_to_string (Fin 1000000000000000000000 0) = ''1e+21''"
    by (simp add: eval_defs)
  have h: "oninput ''health'' ''1000000000000000000000'' initial_stats ''health'' =
      JNum (Fin 1000000000000000000000 0)"
    by (simp add: oninput_def parseInt_def p n num_lt_def)
  have f: "formatStatForDisplay ''save'' (JNum (Fin 1000000000000000000000 0)) = ''1+''"
    "formatStatForDisplay ''health'' (JNum (Fin 1000000000000000000000 0)) = ''1''"
    "formatStatForDisplay ''control'' (JNum (Fin 1000000000000000000000 0)) = ''1''"
    "formatStatForDisplay ''move'' (JNum (Fin 1000000000000000000000 0)) = ''1e+21'' @ [dquote]"
    by (simp_all add: eval_defs)
  from s h f show ?thesis by simp
qed

section \<open>Properties of the arc construction\<close>











section \<open>Properties of the badge layout\<close>

lemma Math_round_nonpos: "x \<le> 0 \<Longrightarrow> Math_round x \<le> 0"
proof -
  assume "x \<le> 0"
  then have "\<lfloor>x + 1 / 2\<rfloor> \<le> 0" by (simp add: floor_le_iff)
  then show ?thesis by (simp add: Math_round_def)
qed

lemma Math_round_double: "\<bar>Math_round (2 * x) - 2 * Math_round x\<bar> \<le> 1"
proof -
  have "\<lfloor>x + 1 / 2\<rfloor> \<le> x + 1 / 2" "x + 1 / 2 < \<lfloor>x + 1 / 2\<rfloor> + 1" by linarith+
  then have "2 * \<lfloor>x + 1 / 2\<rfloor> - 1 \<le> \<lfloor>2 * x + 1 / 2\<rfloor>" "\<lfloor>2 * x + 1 / 2\<rfloor> \<le> 2 * \<lfloor>x + 1 / 2\<rfloor> + 1"
    by linarith+
  then have "\<bar>\<lfloor>2 * x + 1 / 2\<rfloor> - 2 * \<lfloor>x + 1 / 2\<rfloor>\<bar> \<le> 1" by linarith
  then have "\<bar>real_of_int (\<lfloor>2 * x + 1 / 2\<rfloor> - 2 * \<lfloor>x + 1 / 2\<rfloor>)\<bar> \<le> 1"
    by (metis of_int_abs of_int_le_1_iff)
  then show ?thesis by (simp add: Math_round_def)
qed

lemma Math_round_whole: "x \<in> \<int> \<Longrightarrow> Math_round (2 * x) = 2 * Math_round x"
proof -
  assume "x \<in> \<int>"
  then obtain k :: int where x: "x = of_int k" by (auto elim: Ints_cases)
  have "\<lfloor>real_of_int k + 1 / 2\<rfloor> = k" by linarith
  moreover have "\<lfloor>2 * real_of_int k + 1 / 2\<rfloor> = 2 * k" by linarith
  ultimately show ?thesis by (simp add: Math_round_def x)
qed

lemma circleRadius_preview: "circleRadius (previewLayout w h) = Math_round (min w h * 0.12)"
  by (simp add: previewLayout_def Let_def)

lemma circleRadius_export: "circleRadius (exportLayout w h) = Math_round (min w h * 0.12)"
  by (simp add: exportLayout_def Let_def)

lemma min_double: "min (2 * w) (2 * h) = 2 * min w (h::real)"
  by (simp add: min_def)

text \<open>
  C6, as stated, fails: from an 804 by 1100 image the circle radius is 96, from the
  doubled 1608 by 2200 image it is 193.
\<close>

theorem circleRadius_doubling_counterexample:
  "circleRadius (previewLayout 1608 2200) \<noteq> 2 * circleRadius (previewLayout 804 1100) \<and>
   circleRadius (exportLayout 1608 2200) \<noteq> 2 * circleRadius (exportLayout 804 1100)"
  by (simp add: circleRadius_preview circleRadius_export Math_round_def)

text \<open>
  C6, amended: the circle radius is 0.12 times the smaller dimension, rounded to the
  nearest integer; for all positive \<open>w\<close> and \<open>h\<close> the radius from \<open>(2w, 2h)\<close> differs from
  twice the radius from \<open>(w, h)\<close> by at most 1, and equals it when 0.12 times the smaller
  dimension is a whole number.
\<close>

theorem circleRadius_doubling:
  assumes "0 < w" and "0 < h"
  shows "circleRadius (previewLayout w h) = Math_round (0.12 * min w h) \<and>
         circleRadius (exportLayout w h) = Math_round (0.12 * min w h) \<and>
         \<bar>circleRadius (previewLayout (2 * w) (2 * h)) - 2 * circleRadius (previewLayout w h)\<bar> \<le> 1 \<and>
         \<bar>circleRadius (exportLayout (2 * w) (2 * h)) - 2 * circleRadius (exportLayout w h)\<bar> \<le> 1 \<and>
         (0.12 * min w h \<in> \<int> \<longrightarrow>
            circleRadius (previewLayout (2 * w) (2 * h)) = 2 * circleRadius (previewLayout w h) \<and>
            circleRadius (exportLayout (2 * w) (2 * h)) = 2 * circleRadius (exportLayout w h))"
proof -
  let ?x = "0.12 * min w h"
  have e: "min (2 * w) (2 * h) * 0.12 = 2 * ?x" "min w h * 0.12 = ?x"
    by (simp_all add: min_double)
  show ?thesis
    unfolding circleRadius_preview circleRadius_export e
    using Math_round_double [of ?x] Math_round_whole [of ?x] by simp
qed

theorem circleRadius_doubling_witness:
  "(0::real) < 800 \<and> (0::real) < 1100 \<and> circleRadius (previewLayout 800 1100) = 96 \<and>
   circleRadius (previewLayout (2 * 800) (2 * 1100)) = 2 * circleRadius (previewLayout 800 1100) \<and>
   circleRadius (exportLayout (2 * 800) (2 * 1100)) = 192"
proof -
  have i: "(0.12::real) * min 800 1100 \<in> \<int>"
  proof -
    have "(0.12::real) * min 800 1100 = of_int 96" by simp
    then show ?thesis by (simp only: Ints_of_int)
  qed
  have r: "Math_round (0.12 * min 800 1100) = 96" by (simp add: Math_round_def)
  from circleRadius_doubling [of 800 1100] i r show ?thesis by simp
qed

lemma numberRadius_preview:
  "numberRadius (previewLayout w h) = max 8 (circleRadius (previewLayout w h) * 0.40)"
  by (simp add: previewLayout_def Let_def)

lemma textRadius_preview:
  "textRadius (previewLayout w h) = max 12 (circleRadius (previewLayout w h) * 0.70)"
  by (simp add: previewLayout_def Let_def)

lemma numberRadius_export:
  "numberRadius (exportLayout w h) = max 8 (circleRadius (exportLayout w h) * 0.45)"
  by (simp add: exportLayout_def Let_def)

lemma renderQuarterLabels_returns:
  "\<exists>kids'. renderQuarterLabels (Element t a kids) w h q s = Inr (Element t a kids')"
  by (simp add: renderQuarterLabels_def Let_def)

lemma drawWarscrollCanvas_returns:
  "\<exists>c. drawWarscrollCanvas m d title w h img s = Inr c"
  by (simp add: drawWarscrollCanvas_def Let_def)

text \<open>
  C5, as stated, fails: with a 0 by 0 image both renderers complete normally, on a
  circle of radius 0.
\<close>

theorem nonpositive_size_counterexample:
  "\<not> isl (renderQuarterLabels previewInner_initial 0 0 english_quarters initial_stats) \<and>
   circleRadius (previewLayout 0 0) = 0 \<and>
   \<not> isl (drawWarscrollCanvas sample_measure 1 ''Warscroll of'' 0 0 None initial_stats) \<and>
   circleRadius (exportLayout 0 0) = 0"
  by (simp add: renderQuarterLabels_def previewInner_initial_def drawWarscrollCanvas_def Let_def
      circleRadius_preview circleRadius_export Math_round_def)

text \<open>
  C5, amended: a call with \<open>imageWidth \<le> 0\<close> or \<open>imageHeight \<le> 0\<close> raises no validation
  error; both renderers complete, with a circle radius that is not positive and with the
  number and text radii at their minimum of 8 and 12.
\<close>

theorem nonpositive_size_no_error:
  assumes "w \<le> 0 \<or> h \<le> 0"
  shows "(\<exists>kids'. renderQuarterLabels (Element t a kids) w h q s = Inr (Element t a kids')) \<and>
         (\<exists>c. drawWarscrollCanvas m d title w h img s = Inr c) \<and>
         circleRadius (previewLayout w h) = Math_round (min w h * 0.12) \<and>
         circleRadius (previewLayout w h) \<le> 0 \<and>
         numberRadius (previewLayout w h) = 8 \<and>
         textRadius (previewLayout w h) = 12 \<and>
         circleRadius (exportLayout w h) = Math_round (min w h * 0.12) \<and>
         circleRadius (exportLayout w h) \<le> 0 \<and>
         numberRadius (exportLayout w h) = 8"
proof -
  from assms have "min w h * 0.12 \<le> 0" by (auto simp: min_def mult_le_0_iff)
  then have r: "Math_round (min w h * 0.12) \<le> 0" by (rule Math_round_nonpos)
  have p: "circleRadius (previewLayout w h) \<le> 0" and e: "circleRadius (exportLayout w h) \<le> 0"
    using r by (simp_all add: circleRadius_preview circleRadius_export)
  from p have "circleRadius (previewLayout w h) * 0.40 \<le> 8" "circleRadius (previewLayout w h) * 0.70 \<le> 12"
    by simp_all
  then have pn: "numberRadius (previewLayout w h) = 8" and pt: "textRadius (previewLayout w h) = 12"
    unfolding numberRadius_preview textRadius_preview by (simp_all add: max_def)
  from e have "circleRadius (exportLayout w h) * 0.45 \<le> 8" by simp
  then have en: "numberRadius (exportLayout w h) = 8"
    unfolding numberRadius_export by (simp add: max_def)
  from renderQuarterLabels_returns drawWarscrollCanvas_returns p pn pt e en
    circleRadius_preview [of w h] circleRadius_export [of w h]
  show ?thesis by blast
qed

theorem nonpositive_size_no_error_witness:
  "((0::real) \<le> 0 \<or> (1100::real) \<le> 0) \<and>
   \<not> isl (drawWarscrollCanvas sample_measure 1 ''Warscroll of'' 0 1100 None initial_stats) \<and>
   \<not> isl (renderQuarterLabels (Element ''div'' [] []) 0 1100 english_quarters initial_stats) \<and>
   numberRadius (exportLayout 0 1100) = 8 \<and> numberRadius (previewLayout 0 1100) = 8"
proof -
  have h: "(0::real) \<le> 0 \<or> (1100::real) \<le> 0" by simp
  from nonpositive_size_no_error [OF h, where t = "''div''" and a = "[]" and kids = "[]"
      and q = english_quarters and s = initial_stats and m = sample_measure and d = 1
      and title = "''Warscroll of''" and img = None]
  show ?thesis by auto
qed

section \<open>Properties of the export\<close>















lemma words_of_snoc: "words_of (ls @ [l]) = words_of ls @ words_of [l]"
  by (simp add: words_of_def)








lemma draw_numbers_fold:
  "draw_numbers w h stats c =
     foldl (\<lambda>c s. drawStatAtAngle (cx (exportLayout w h)) (cy (exportLayout w h))
                     (numberRadius (exportLayout w h)) stats (fst s) (snd s) c)
       (c @ [FillStyle ''#ffffff'', TextAlign ''center'', TextBaseline ''middle'',
             Font (max 12 (Math_round (circleRadius (exportLayout w h) * 0.4))) ''sans-serif'',
             ShadowColor ''rgba(0,0,0,0.5)'', ShadowBlur 2])
       statsMap"
  by (simp add: draw_numbers_def Let_def statsMap_def)











section \<open>Placement of the stat numerals\<close>

lemma polar_distance:
  "sqrt ((px (polarToCartesian x0 y0 r a) - x0)\<^sup>2 + (py (polarToCartesian x0 y0 r a) - y0)\<^sup>2) = \<bar>r\<bar>"
proof -
  let ?t = "a * pi / 180"
  have "(r * cos ?t)\<^sup>2 + (r * sin ?t)\<^sup>2 = r\<^sup>2 * ((cos ?t)\<^sup>2 + (sin ?t)\<^sup>2)"
    by (simp only: power_mult_distrib distrib_left)
  also have "\<dots> = r\<^sup>2" by simp
  finally have "sqrt ((r * cos ?t)\<^sup>2 + (r * sin ?t)\<^sup>2) = \<bar>r\<bar>" by simp
  then show ?thesis by (simp add: polarToCartesian_def Let_def)
qed

lemma layouts_agree:
  "cx (exportLayout w h) = cx (previewLayout w h) \<and>
   cy (exportLayout w h) = cy (previewLayout w h) \<and>
   circleRadius (exportLayout w h) = circleRadius (previewLayout w h)"
  by (simp add: exportLayout_def previewLayout_def Let_def)

lemma preview_numerals_concat:
  "\<exists>attrs before. overlay_svg w h q stats =
     Element ''svg'' attrs (before @ concat (map (stat_number (previewLayout w h) stats) statsMap))"
proof -
  have "overlay_svg w h q stats =
     Element ''svg''
           [(''class'', Str ''quarter-labels-overlay''), (''width'', Str ''100%''),
            (''height'', Str ''100%''), (''viewBox'', ViewBox w h),
            (''preserveAspectRatio'', Str ''xMinYMin meet''), (''style.position'', Str ''absolute''),
            (''style.left'', Str ''0''), (''style.top'', Str ''0''),
            (''style.pointerEvents'', Str ''none''), (''style.overflow'', Str ''visible'')]
     ((Element ''defs'' [] (map (quarter_path (previewLayout w h)) (quartersSpecs q)) #
        map (quarter_text (previewLayout w h)) (quartersSpecs q)) @
      concat (map (stat_number (previewLayout w h) stats) statsMap))"
    by (simp add: overlay_svg_def Let_def)
  then show ?thesis by blast
qed

text \<open>
  C9, as stated, fails: on a 100 by 100 image the circle radius is 12 and both renderers
  place the numerals at distance 8, neither at 0.40 nor at 0.45 times the radius.
\<close>

theorem numeral_radius_counterexample:
  "numberRadius (previewLayout 100 100) \<noteq> 0.40 * circleRadius (previewLayout 100 100) \<and>
   numberRadius (exportLayout 100 100) \<noteq> 0.45 * circleRadius (exportLayout 100 100) \<and>
   numberRadius (previewLayout 100 100) = numberRadius (exportLayout 100 100)"
  by (simp add: previewLayout_def exportLayout_def Let_def Math_round_def)

text \<open>
  C9, amended: both renderers place a numeral at distance \<open>max(8, f \<times> circleRadius)\<close> from
  the same centre, with \<open>f = 0.40\<close> in the preview and \<open>f = 0.45\<close> in the export; for a
  circle radius of at least 20 these are 0.40 and 0.45 times the circle radius. Both use
  the angles 270 (move), 180 (health), 0 (save), 90 (control) and the same display string,
  and leave out a stat whose display string is empty.
\<close>

theorem numeral_placement:
  "cx (exportLayout w h) = cx (previewLayout w h) \<and>
   cy (exportLayout w h) = cy (previewLayout w h) \<and>
   circleRadius (exportLayout w h) = circleRadius (previewLayout w h) \<and>
   numberRadius (previewLayout w h) = max 8 (0.40 * circleRadius (previewLayout w h)) \<and>
   numberRadius (exportLayout w h) = max 8 (0.45 * circleRadius (previewLayout w h)) \<and>
   (20 \<le> circleRadius (previewLayout w h) \<longrightarrow>
      numberRadius (previewLayout w h) = 0.40 * circleRadius (previewLayout w h) \<and>
      numberRadius (exportLayout w h) = 0.45 * circleRadius (previewLayout w h)) \<and>
   (\<forall>angle key.
      stat_number (previewLayout w h) stats (angle, key) =
        (if formatStatForDisplay key (stats key) = [] then []
         else
           (let p = polarToCartesian (cx (previewLayout w h)) (cy (previewLayout w h))
                      (numberRadius (previewLayout w h)) angle
            in [Element ''text''
                  [(''x'', Fixed2 (px p)), (''y'', Fixed2 (py p)), (''fill'', Str ''#ffffff''),
                   (''font-weight'', Str ''700''),
                   (''font-size'', Num (max 12 (Math_round (circleRadius (previewLayout w h) * 0.3)))),
                   (''text-anchor'', Str ''middle''), (''dominant-baseline'', Str ''middle'')]
                  [TextNode (formatStatForDisplay key (stats key))]]))) \<and>
   (\<forall>angle key c.
      drawStatAtAngle (cx (exportLayout w h)) (cy (exportLayout w h))
          (numberRadius (exportLayout w h)) stats angle key c =
        (if formatStatForDisplay key (stats key) = [] then c
         else
           (let p = polarToCartesian (cx (previewLayout w h)) (cy (previewLayout w h))
                      (numberRadius (exportLayout w h)) angle
            in c @ [FillText (formatStatForDisplay key (stats key)) (px p) (py p)]))) \<and>
   (\<forall>x0 y0 r a.
      sqrt ((px (polarToCartesian x0 y0 r a) - x0)\<^sup>2 + (py (polarToCartesian x0 y0 r a) - y0)\<^sup>2)
        = \<bar>r\<bar>) \<and>
   statsMap = [(270, ''move''), (180, ''health''), (0, ''save''), (90, ''control'')] \<and>
   (\<exists>attrs before. overlay_svg w h q stats =
      Element ''svg'' attrs
        (before @ concat (map (stat_number (previewLayout w h) stats) statsMap))) \<and>
   (\<exists>c5. draw_numbers w h stats cs =
      foldl (\<lambda>c s. drawStatAtAngle (cx (exportLayout w h)) (cy (exportLayout w h))
                      (numberRadius (exportLayout w h)) stats (fst s) (snd s) c) c5 statsMap)"
proof -
  let ?r = "circleRadius (previewLayout w h)"
  have er: "circleRadius (exportLayout w h) = ?r" using layouts_agree by simp
  have pn: "numberRadius (previewLayout w h) = max 8 (0.40 * ?r)"
    by (simp add: previewLayout_def Let_def mult.commute)
  have en: "numberRadius (exportLayout w h) = max 8 (0.45 * ?r)"
    using er by (simp add: exportLayout_def Let_def mult.commute)
  have big: "20 \<le> ?r \<longrightarrow>
      numberRadius (previewLayout w h) = 0.40 * ?r \<and> numberRadius (exportLayout w h) = 0.45 * ?r"
    unfolding pn en by (simp add: max_def)
  have sn: "\<forall>angle key.
      stat_number (previewLayout w h) stats (angle, key) =
        (if formatStatForDisplay key (stats key) = [] then []
         else
           (let p = polarToCartesian (cx (previewLayout w h)) (cy (previewLayout w h))
                      (numberRadius (previewLayout w h)) angle
            in [Element ''text''
                  [(''x'', Fixed2 (px p)), (''y'', Fixed2 (py p)), (''fill'', Str ''#ffffff''),
                   (''font-weight'', Str ''700''),
                   (''font-size'', Num (max 12 (Math_round (circleRadius (previewLayout w h) * 0.3)))),
                   (''text-anchor'', Str ''middle''), (''dominant-baseline'', Str ''middle'')]
                  [TextNode (formatStatForDisplay key (stats key))]]))"
    by (simp add: stat_number_def Let_def text_children_def)
  have ds: "\<forall>angle key c.
      drawStatAtAngle (cx (exportLayout w h)) (cy (exportLayout w h))
          (numberRadius (exportLayout w h)) stats angle key c =
        (if formatStatForDisplay key (stats key) = [] then c
         else
           (let p = polarToCartesian (cx (previewLayout w h)) (cy (previewLayout w h))
                      (numberRadius (exportLayout w h)) angle
            in c @ [FillText (formatStatForDisplay key (stats key)) (px p) (py p)]))"
    using layouts_agree [of w h] by (simp add: drawStatAtAngle_def Let_def polarToCartesian_def)
  have fold: "\<exists>c5. draw_numbers w h stats cs =
        foldl (\<lambda>c s. drawStatAtAngle (cx (exportLayout w h)) (cy (exportLayout w h))
                        (numberRadius (exportLayout w h)) stats (fst s) (snd s) c) c5 statsMap"
    using draw_numbers_fold [of w h stats cs] by blast
  have sm: "statsMap = [(270, ''move''), (180, ''health''), (0, ''save''), (90, ''control'')]"
    by (simp add: statsMap_def)
  from layouts_agree [of w h] pn en big sn ds polar_distance sm
    preview_numerals_concat [of w h q stats] fold
  show ?thesis by blast
qed

theorem numeral_placement_witness:
  "20 \<le> circleRadius (previewLayout 800 1100) \<and>
   circleRadius (previewLayout 800 1100) = 96 \<and>
   numberRadius (previewLayout 800 1100) = 0.40 * 96 \<and>
   numberRadius (exportLayout 800 1100) = 0.45 * 96"
proof -
  have c: "circleRadius (previewLayout 800 1100) = 96"
    by (simp add: previewLayout_def Let_def Math_round_def)
  then have h: "20 \<le> circleRadius (previewLayout 800 1100)" by simp
  from numeral_placement [where w = 800 and h = 1100 and stats = initial_stats
      and q = english_quarters and cs = "[]"] c h
  show ?thesis by simp
qed

section \<open>Properties of the overlay\<close>

lemma count_overlays_append:
  "count_overlays (xs @ ys) = count_overlays xs + count_overlays ys"
  by (induction xs rule: count_overlays.induct) simp_all

lemma remove_first_overlay_None:
  "remove_first_overlay ns = None \<longleftrightarrow> count_overlays ns = 0"
  by (induction ns rule: remove_first_overlay.induct) (auto split: option.splits)

lemma is_overlay_attrs: "is_overlay (Element t a ks) = is_overlay (Element t a ks')"
  by (simp add: is_overlay_def class_tokens_def)

lemma remove_first_overlay_less:
  "remove_first_overlay ns = Some ns' \<Longrightarrow> count_overlays ns' < count_overlays ns"
proof (induction ns arbitrary: ns' rule: remove_first_overlay.induct)
  case 1
  then show ?case by simp
next
  case (2 s ns)
  then show ?case by auto
next
  case (3 t a kids ns)
  show ?case
  proof (cases "is_overlay (Element t a kids)")
    case True
    with 3 show ?thesis by auto
  next
    case False
    show ?thesis
    proof (cases "remove_first_overlay kids")
      case None
      with False 3 show ?thesis by auto
    next
      case (Some kids')
      with False "3.IH"(1) [OF False Some] "3.prems" is_overlay_attrs [of t a kids' kids]
      show ?thesis by auto
    qed
  qed
qed

lemma remove_first_overlay_here:
  assumes "count_overlays pre = 0" and "is_overlay (Element t a kids)"
  shows "remove_first_overlay (pre @ Element t a kids # post) = Some (pre @ post)"
  using assms(1)
proof (induction pre rule: remove_first_overlay.induct)
  case 1
  from assms(2) show ?case by simp
next
  case (2 s ns)
  then show ?case by simp
next
  case (3 t' a' kids' ns)
  from "3.prems" have n: "\<not> is_overlay (Element t' a' kids')"
    and k: "count_overlays kids' = 0" and r: "count_overlays ns = 0"
    by (auto split: if_splits)
  from k have "remove_first_overlay kids' = None" by (simp add: remove_first_overlay_None)
  with n "3.IH"(2) [OF n this r] show ?case by simp
qed

lemma quarter_path_count: "count_overlays (map (quarter_path g) specs) = 0"
  by (induction specs) (simp_all add: quarter_path_def Let_def is_overlay_def class_tokens_def)

lemma quarter_text_count: "count_overlays (map (quarter_text g) specs) = 0"
  by (induction specs)
    (simp_all add: quarter_text_def Let_def is_overlay_def class_tokens_def text_children_def)

lemma stat_number_count: "count_overlays (concat (map (stat_number g stats) ss)) = 0"
  by (induction ss)
    (simp_all add: stat_number_def Let_def is_overlay_def class_tokens_def text_children_def
      count_overlays_append)

lemma overlay_svg_is_overlay: "is_overlay (overlay_svg w h q s)"
  by (simp add: overlay_svg_def Let_def is_overlay_def class_tokens_def)

lemma overlay_svg_count: "count_overlays [overlay_svg w h q s] = 1"
proof -
  have "is_overlay (Element ''svg''
           [(''class'', Str ''quarter-labels-overlay''), (''width'', Str ''100%''),
            (''height'', Str ''100%''), (''viewBox'', ViewBox w h),
            (''preserveAspectRatio'', Str ''xMinYMin meet''), (''style.position'', Str ''absolute''),
            (''style.left'', Str ''0''), (''style.top'', Str ''0''),
            (''style.pointerEvents'', Str ''none''), (''style.overflow'', Str ''visible'')] ks)" for ks
    by (simp add: is_overlay_def class_tokens_def)
  then show ?thesis
    by (simp add: overlay_svg_def Let_def count_overlays_append quarter_path_count
        quarter_text_count stat_number_count is_overlay_def class_tokens_def)
qed

lemma renderQuarterLabels_one:
  assumes "count_overlays kids \<le> 1"
  shows "\<exists>kids'. renderQuarterLabels (Element t a kids) w h q s =
           Inr (Element t a (kids' @ [overlay_svg w h q s])) \<and> count_overlays kids' = 0"
proof (cases "remove_first_overlay kids")
  case None
  then have "count_overlays kids = 0" by (simp add: remove_first_overlay_None)
  with None show ?thesis by (simp add: renderQuarterLabels_def Let_def)
next
  case (Some ks)
  from remove_first_overlay_less [OF Some] assms have "count_overlays ks = 0" by simp
  with Some show ?thesis by (simp add: renderQuarterLabels_def Let_def)
qed

lemma render_all_one:
  assumes "count_overlays kids \<le> 1" and "calls \<noteq> []"
  shows "\<exists>kids'. render_all calls (Element t a kids) =
           Inr (Element t a (kids' @ [case last calls of (w, h, q, s) \<Rightarrow> overlay_svg w h q s])) \<and>
           count_overlays kids' = 0"
  using assms
proof (induction calls arbitrary: kids)
  case Nil
  then show ?case by simp
next
  case (Cons call calls)
  obtain w h q s where call: "call = (w, h, q, s)" by (cases call)
  from renderQuarterLabels_one [OF Cons.prems(1), of t a w h q s]
  obtain ks where r: "renderQuarterLabels (Element t a kids) w h q s =
           Inr (Element t a (ks @ [overlay_svg w h q s]))" and z: "count_overlays ks = 0"
    by blast
  show ?case
  proof (cases "calls = []")
    case True
    with r z call show ?thesis by simp
  next
    case False
    from z have "count_overlays (ks @ [overlay_svg w h q s]) \<le> 1"
      by (simp add: count_overlays_append overlay_svg_count)
    from Cons.IH [OF this False] r call False show ?thesis by simp
  qed
qed

text \<open>
  C8: on a container that holds at most one overlay (the container of the program
  starts with none), after any number of successive calls, one at least, with any sizes,
  labels and stats, the container holds exactly one overlay element, the one of the last
  call, as its last child; a call on a container with one overlay takes that overlay out
  and appends the new one.
\<close>

theorem overlay_render_idempotent:
  "(count_overlays kids \<le> 1 \<and> calls \<noteq> [] \<longrightarrow>
      (\<exists>kids'. render_all calls (Element t a kids) = Inr (Element t a kids') \<and>
         count_overlays kids' = 1 \<and>
         last kids' = (case last calls of (w, h, q, s) \<Rightarrow> overlay_svg w h q s))) \<and>
   (count_overlays pre = 0 \<and> count_overlays post = 0 \<and> is_overlay (Element t' a' old) \<longrightarrow>
      renderQuarterLabels (Element t a (pre @ Element t' a' old # post)) w h q s =
        Inr (Element t a (pre @ post @ [overlay_svg w h q s])))"
proof (intro conjI impI)
  assume "count_overlays kids \<le> 1 \<and> calls \<noteq> []"
  then obtain ks where r: "render_all calls (Element t a kids) =
      Inr (Element t a (ks @ [case last calls of (w, h, q, s) \<Rightarrow> overlay_svg w h q s]))"
    and z: "count_overlays ks = 0"
    using render_all_one [of kids calls t a] by blast
  obtain w h q s where l: "last calls = (w, h, q, s)" by (cases "last calls")
  from z have "count_overlays (ks @ [overlay_svg w h q s]) = 1"
    by (simp add: count_overlays_append overlay_svg_count)
  with r l show "\<exists>kids'. render_all calls (Element t a kids) = Inr (Element t a kids') \<and>
         count_overlays kids' = 1 \<and>
         last kids' = (case last calls of (w, h, q, s) \<Rightarrow> overlay_svg w h q s)"
    by simp
next
  assume "count_overlays pre = 0 \<and> count_overlays post = 0 \<and> is_overlay (Element t' a' old)"
  then have "remove_first_overlay (pre @ Element t' a' old # post) = Some (pre @ post)"
    by (simp add: remove_first_overlay_here)
  then show "renderQuarterLabels (Element t a (pre @ Element t' a' old # post)) w h q s =
        Inr (Element t a (pre @ post @ [overlay_svg w h q s]))"
    by (simp add: renderQuarterLabels_def Let_def)
qed

theorem overlay_render_idempotent_witness:
  "count_overlays (node_children previewInner_initial) \<le> 1 \<and>
   [(800, 1100, english_quarters, initial_stats),
    (800, 1100, english_quarters, oninput ''move'' ''6'' initial_stats)] \<noteq> [] \<and>
   count_overlays (node_children (projr (render_all
      [(800, 1100, english_quarters, initial_stats),
       (800, 1100, english_quarters, oninput ''move'' ''6'' initial_stats)]
      previewInner_initial))) = 1"
proof -
  let ?calls = "[(800, 1100, english_quarters, initial_stats),
                 (800, 1100, english_quarters, oninput ''move'' ''6'' initial_stats)]"
  obtain t a kids where p: "previewInner_initial = Element t a kids"
    by (cases previewInner_initial) (simp_all add: previewInner_initial_def)
  have c: "count_overlays (node_children previewInner_initial) \<le> 1"
    by (simp add: previewInner_initial_def is_overlay_def class_tokens_def)
  from c [unfolded p] have k: "count_overlays kids \<le> 1" by simp
  have ne: "?calls \<noteq> []" by simp
  from overlay_render_idempotent [where kids = kids and t = t and a = a and calls = ?calls,
      THEN conjunct1] k ne
  obtain kids' where "render_all ?calls (Element t a kids) = Inr (Element t a kids')"
    and "count_overlays kids' = 1"
    by blast
  then have "count_overlays (node_children (projr (render_all ?calls previewInner_initial))) = 1"
    unfolding p by (simp only: sum.sel node.sel)
  with c ne show ?thesis by blast
qed

end
